theory Spec2Isabelle
  imports Complex_Main
begin

section \<open>Python values and exceptions\<close>

text \<open>
  The module \<^verbatim>\<open>disvae/models/encoders.py\<close> defines a factory \<^verbatim>\<open>get_encoder\<close> and three
  \<^verbatim>\<open>nn.Module\<close> classes. Exceptions are modelled by their Python class.
\<close>

datatype error =
    AssertionError
  | RuntimeError
  | ValueError
  | IndexError
  | NameError
  | AttributeError

text \<open>The objects bound at module level once the file has been executed (lines 4-9, 13, 18, 94, 132).\<close>

datatype py_object =
    Module_numpy
  | Module_torch
  | Module_nn
  | Module_F
  | Function_get_encoder
  | Class_EncoderBurgess
  | Class_ConvEncoder
  | Class_DomainEncoder

definition module_globals :: "(string \<times> py_object) list" where
  "module_globals =
     [(''np'', Module_numpy), (''torch'', Module_torch), (''nn'', Module_nn), (''F'', Module_F),
      (''get_encoder'', Function_get_encoder),
      (''EncoderBurgess'', Class_EncoderBurgess),
      (''ConvEncoder'', Class_ConvEncoder),
      (''DomainEncoder'', Class_DomainEncoder)]"

section \<open>The factory \<^verbatim>\<open>get_encoder\<close>\<close>

text \<open>
  \<^verbatim>\<open>str.lower\<close> and \<^verbatim>\<open>str.capitalize\<close> on ASCII text: every character but the letters is
  left as it is.
\<close>

definition is_upper :: "char \<Rightarrow> bool" where
  "is_upper c \<longleftrightarrow> 65 \<le> (of_char c :: nat) \<and> (of_char c :: nat) \<le> 90"

definition is_lower :: "char \<Rightarrow> bool" where
  "is_lower c \<longleftrightarrow> 97 \<le> (of_char c :: nat) \<and> (of_char c :: nat) \<le> 122"

definition is_digit :: "char \<Rightarrow> bool" where
  "is_digit c \<longleftrightarrow> 48 \<le> (of_char c :: nat) \<and> (of_char c :: nat) \<le> 57"

definition char_lower :: "char \<Rightarrow> char" where
  "char_lower c = (if is_upper c then char_of ((of_char c :: nat) + 32) else c)"

definition char_upper :: "char \<Rightarrow> char" where
  "char_upper c = (if is_lower c then char_of ((of_char c :: nat) - 32) else c)"

definition lower :: "string \<Rightarrow> string" where
  "lower s = map char_lower s"

fun capitalize :: "string \<Rightarrow> string" where
  "capitalize [] = []"
| "capitalize (c # cs) = char_upper c # map char_lower cs"

text \<open>
  \<^verbatim>\<open>eval\<close> of a string that is a bare identifier looks the name up in the module's globals
  (no builtin begins with \<^verbatim>\<open>Encoder\<close>) and raises \<^verbatim>\<open>NameError\<close> when it is not bound. Any other
  string is an arbitrary Python expression: the model returns \<open>None\<close> for it and says
  nothing about what Python does.
\<close>

definition is_ident_char :: "char \<Rightarrow> bool" where
  "is_ident_char c \<longleftrightarrow> is_upper c \<or> is_lower c \<or> is_digit c \<or> c = CHR ''_''"

definition is_identifier :: "string \<Rightarrow> bool" where
  "is_identifier s \<longleftrightarrow> s \<noteq> [] \<and> \<not> is_digit (hd s) \<and> list_all is_ident_char s"

definition eval_name :: "string \<Rightarrow> (error + py_object) option" where
  "eval_name s =
     (if is_identifier s
      then Some (case map_of module_globals s of None \<Rightarrow> Inl NameError | Some v \<Rightarrow> Inr v)
      else None)"

text \<open>Lines 13-15.\<close>

definition get_encoder :: "string \<Rightarrow> (error + py_object) option" where
  "get_encoder model_type =
     (let model_type = capitalize (lower model_type)
      in eval_name (''Encoder'' @ model_type))"


section \<open>Tensors\<close>

text \<open>
  A tensor is its shape and its elements in row-major order, as a contiguous
  \<^verbatim>\<open>torch.Tensor\<close> stores them. Every tensor of the three forward passes is contiguous.
  Floating-point elements are idealised as \<^typ>\<open>real\<close>; index tensors hold \<^typ>\<open>int\<close>.
\<close>

datatype 'a tensor = Tensor (shape: "nat list") (data: "'a list")

definition numel :: "'a tensor \<Rightarrow> nat" where
  "numel t = prod_list (shape t)"

definition wf_tensor :: "'a tensor \<Rightarrow> bool" where
  "wf_tensor t \<longleftrightarrow> length (data t) = numel t"

text \<open>Row-major offset of a multi-index, and the element at it.\<close>

fun ravel :: "nat list \<Rightarrow> nat list \<Rightarrow> nat" where
  "ravel (d # ds) (i # is) = i * prod_list ds + ravel ds is"
| "ravel _ _ = 0"

definition tget :: "'a tensor \<Rightarrow> nat list \<Rightarrow> 'a" where
  "tget t idx = data t ! ravel (shape t) idx"

text \<open>The \<open>b\<close>-th block of \<open>m\<close> consecutive elements, and a computation done block by block.\<close>

definition sample :: "nat \<Rightarrow> 'a list \<Rightarrow> nat \<Rightarrow> 'a list" where
  "sample m xs b = take m (drop (b * m) xs)"

definition per_sample :: "nat \<Rightarrow> nat \<Rightarrow> ('a list \<Rightarrow> 'b list) \<Rightarrow> 'a list \<Rightarrow> 'b list" where
  "per_sample n m f xs = concat (map (\<lambda>b. f (sample m xs b)) [0..<n])"

text \<open>
  \<^verbatim>\<open>Tensor.size(0)\<close> and \<^verbatim>\<open>Tensor.size()[0]\<close>: both raise \<^verbatim>\<open>IndexError\<close> on a tensor
  without dimensions.
\<close>

definition size0 :: "'a tensor \<Rightarrow> error + nat" where
  "size0 t = (case shape t of [] \<Rightarrow> Inl IndexError | n # _ \<Rightarrow> Inr n)"

text \<open>
  \<^verbatim>\<open>Tensor.view\<close>: the new shape may hold one \<open>-1\<close>, inferred from the number of elements.
  With a \<open>-1\<close>, a product of zero of the other sizes is rejected (the inferred size would be
  ambiguous); without one, the products must agree. The elements are shared unchanged.
\<close>

definition infer_size :: "int list \<Rightarrow> nat \<Rightarrow> error + nat list" where
  "infer_size sizes n =
     (if list_ex (\<lambda>d. d < - 1) sizes \<or> 1 < count_list sizes (- 1) then Inl RuntimeError
      else
        let newsize = prod_list (map nat (filter (\<lambda>d. d \<noteq> - 1) sizes)) in
        if list_ex (\<lambda>d. d = - 1) sizes
        then (if newsize = 0 \<or> n mod newsize \<noteq> 0 then Inl RuntimeError
              else Inr (map (\<lambda>d. if d = - 1 then n div newsize else nat d) sizes))
        else (if n = newsize then Inr (map nat sizes) else Inl RuntimeError))"

definition view :: "'a tensor \<Rightarrow> int list \<Rightarrow> error + 'a tensor" where
  "view t sizes =
     (case infer_size sizes (numel t) of
        Inl e \<Rightarrow> Inl e
      | Inr s \<Rightarrow> Inr (Tensor s (data t)))"

text \<open>
  \<^verbatim>\<open>Tensor.unbind(-1)\<close>: one tensor per position of the last dimension, each without that
  dimension; the \<open>j\<close>-th takes every \<open>k\<close>-th element starting at \<open>j\<close>.
\<close>

definition unbind_last :: "'a tensor \<Rightarrow> error + 'a tensor list" where
  "unbind_last t =
     (case shape t of
        [] \<Rightarrow> Inl IndexError
      | _ # _ \<Rightarrow>
          let k = last (shape t); s = butlast (shape t) in
          Inr (map (\<lambda>j. Tensor s (map (\<lambda>i. data t ! (i * k + j)) [0..<prod_list s])) [0..<k]))"

text \<open>Sequencing of steps that may raise.\<close>

definition thn :: "error + 'a \<Rightarrow> ('a \<Rightarrow> error + 'b) \<Rightarrow> error + 'b" where
  "thn r f = (case r of Inl e \<Rightarrow> Inl e | Inr v \<Rightarrow> f v)"

text \<open>Indexing a Python tuple.\<close>

definition tuple_get :: "'a list \<Rightarrow> nat \<Rightarrow> error + 'a" where
  "tuple_get xs i = (if i < length xs then Inr (xs ! i) else Inl IndexError)"

section \<open>Layers of \<^verbatim>\<open>torch.nn\<close>\<close>

text \<open>
  The layers are those of the PyTorch 1.x releases the repository was written for: a
  convolution takes a batched, 4-dimensional input only. Initial parameter values are drawn
  at random by PyTorch; a constructor of the model takes them from a function
  \<open>init name i\<close>, the \<open>i\<close>-th value of the parameter called \<open>name\<close>.
\<close>

type_synonym initialiser = "string \<Rightarrow> nat \<Rightarrow> real"

definition param :: "initialiser \<Rightarrow> string \<Rightarrow> nat list \<Rightarrow> real tensor" where
  "param init name s = Tensor s (map (init name) [0..<prod_list s])"

definition const_tensor :: "nat list \<Rightarrow> real \<Rightarrow> real tensor" where
  "const_tensor s v = Tensor s (replicate (prod_list s) v)"

subsection \<open>\<^verbatim>\<open>torch.relu\<close> and \<^verbatim>\<open>nn.LeakyReLU\<close>\<close>

definition relu :: "real tensor \<Rightarrow> real tensor" where
  "relu t = Tensor (shape t) (map (max 0) (data t))"

text \<open>The default negative slope is \<open>0.01\<close>. The layer works in place on the fresh tensor
  it is given, which no other name refers to.\<close>

definition leaky :: "real \<Rightarrow> real" where
  "leaky v = max 0 v + (1 / 100) * min 0 v"

definition LeakyReLU :: "real tensor \<Rightarrow> real tensor" where
  "LeakyReLU t = Tensor (shape t) (map leaky (data t))"

subsection \<open>\<^verbatim>\<open>nn.Conv2d\<close>\<close>

record Conv2d =
  in_channels :: nat
  out_channels :: nat
  kernel_size :: nat
  stride :: nat
  padding :: nat
  weight :: "real tensor"
  bias :: "real tensor"

definition Conv2d_init :: "initialiser \<Rightarrow> string \<Rightarrow> nat \<Rightarrow> nat \<Rightarrow> nat \<Rightarrow> nat \<Rightarrow> nat \<Rightarrow> Conv2d" where
  "Conv2d_init init name cin cout k s p =
     \<lparr>in_channels = cin, out_channels = cout, kernel_size = k, stride = s, padding = p,
      weight = param init (name @ ''.weight'') [cout, cin, k, k],
      bias = param init (name @ ''.bias'') [cout]\<rparr>"

definition conv_out_size :: "nat \<Rightarrow> nat \<Rightarrow> nat \<Rightarrow> nat \<Rightarrow> nat" where
  "conv_out_size n k s p = (n + 2 * p - k) div s + 1"

text \<open>The input of one sample at channel \<open>ci\<close>, row \<open>a\<close>, column \<open>b\<close> of the zero-padded image.\<close>

definition padded_at :: "real list \<Rightarrow> nat \<Rightarrow> nat \<Rightarrow> nat \<Rightarrow> nat \<Rightarrow> nat \<Rightarrow> nat \<Rightarrow> real" where
  "padded_at xs h w p ci a b =
     (if p \<le> a \<and> a < h + p \<and> p \<le> b \<and> b < w + p
      then xs ! ((ci * h + (a - p)) * w + (b - p)) else 0)"

definition conv2d_sample :: "Conv2d \<Rightarrow> nat \<Rightarrow> nat \<Rightarrow> real list \<Rightarrow> real list" where
  "conv2d_sample m h w xs =
     (let cin = in_channels m; k = kernel_size m; s = stride m; p = padding m in
      concat (map (\<lambda>co.
        concat (map (\<lambda>i.
          map (\<lambda>j.
            data (Conv2d.bias m) ! co +
            (\<Sum>ci\<leftarrow>[0..<cin]. \<Sum>ki\<leftarrow>[0..<k]. \<Sum>kj\<leftarrow>[0..<k].
               data (Conv2d.weight m) ! (((co * cin + ci) * k + ki) * k + kj)
               * padded_at xs h w p ci (i * s + ki) (j * s + kj)))
          [0..<conv_out_size w k s p])
        [0..<conv_out_size h k s p]))
      [0..<out_channels m]))"

definition Conv2d_forward :: "Conv2d \<Rightarrow> real tensor \<Rightarrow> error + real tensor" where
  "Conv2d_forward m x =
     (case shape x of
        [n, c, h, w] \<Rightarrow>
          if c \<noteq> in_channels m \<or> stride m = 0
             \<or> h + 2 * padding m < kernel_size m \<or> w + 2 * padding m < kernel_size m
          then Inl RuntimeError
          else Inr (Tensor
                 [n, out_channels m,
                  conv_out_size h (kernel_size m) (stride m) (padding m),
                  conv_out_size w (kernel_size m) (stride m) (padding m)]
                 (per_sample n (c * h * w) (conv2d_sample m h w) (data x)))
      | _ \<Rightarrow> Inl RuntimeError)"

definition Conv2d_num_params :: "Conv2d \<Rightarrow> nat" where
  "Conv2d_num_params m = numel (Conv2d.weight m) + numel (Conv2d.bias m)"

subsection \<open>\<^verbatim>\<open>nn.Linear\<close>\<close>

record Linear =
  in_features :: nat
  out_features :: nat
  weight :: "real tensor"
  bias :: "real tensor"

definition Linear_init :: "initialiser \<Rightarrow> string \<Rightarrow> nat \<Rightarrow> nat \<Rightarrow> Linear" where
  "Linear_init init name n_in n_out =
     \<lparr>in_features = n_in, out_features = n_out,
      weight = param init (name @ ''.weight'') [n_out, n_in],
      bias = param init (name @ ''.bias'') [n_out]\<rparr>"

definition linear_row :: "Linear \<Rightarrow> real list \<Rightarrow> real list" where
  "linear_row m xs =
     map (\<lambda>j. data (Linear.bias m) ! j +
               (\<Sum>i\<leftarrow>[0..<in_features m]. data (Linear.weight m) ! (j * in_features m + i) * xs ! i))
       [0..<out_features m]"

definition Linear_forward :: "Linear \<Rightarrow> real tensor \<Rightarrow> error + real tensor" where
  "Linear_forward m x =
     (case shape x of
        [] \<Rightarrow> Inl RuntimeError
      | _ # _ \<Rightarrow>
          if last (shape x) \<noteq> in_features m then Inl RuntimeError
          else Inr (Tensor (butlast (shape x) @ [out_features m])
                 (per_sample (prod_list (butlast (shape x))) (in_features m) (linear_row m) (data x))))"

definition Linear_num_params :: "Linear \<Rightarrow> nat" where
  "Linear_num_params m = numel (Linear.weight m) + numel (Linear.bias m)"


subsection \<open>\<^verbatim>\<open>nn.BatchNorm1d\<close> and \<^verbatim>\<open>nn.BatchNorm2d\<close>\<close>

text \<open>
  A batch-normalisation layer owns, besides its affine parameters, the buffers
  \<^verbatim>\<open>running_mean\<close>, \<^verbatim>\<open>running_var\<close> and \<^verbatim>\<open>num_batches_tracked\<close>, and the flag \<^verbatim>\<open>training\<close>
  that every \<^verbatim>\<open>nn.Module\<close> has (set at construction, cleared by \<^verbatim>\<open>eval()\<close>).
\<close>

record BatchNorm =
  num_features :: nat
  eps :: real
  momentum :: real
  weight :: "real tensor"
  bias :: "real tensor"
  running_mean :: "real tensor"
  running_var :: "real tensor"
  num_batches_tracked :: nat
  training :: bool

definition BatchNorm_init :: "nat \<Rightarrow> BatchNorm" where
  "BatchNorm_init n =
     \<lparr>num_features = n, eps = 1 / 100000, momentum = 1 / 10,
      weight = const_tensor [n] 1, bias = const_tensor [n] 0,
      running_mean = const_tensor [n] 0, running_var = const_tensor [n] 1,
      num_batches_tracked = 0, training = True\<rparr>"

definition mean :: "real list \<Rightarrow> real" where
  "mean xs = sum_list xs / real (length xs)"

definition sq_dev :: "real list \<Rightarrow> real" where
  "sq_dev xs = (\<Sum>v\<leftarrow>xs. (v - mean xs)\<^sup>2)"

text \<open>The values of channel \<open>ch\<close> over a batch laid out as \<open>(n, c, inner)\<close>.\<close>

definition channel_values :: "nat \<Rightarrow> nat \<Rightarrow> nat \<Rightarrow> real list \<Rightarrow> nat \<Rightarrow> real list" where
  "channel_values n c inner xs ch =
     concat (map (\<lambda>b. map (\<lambda>r. xs ! ((b * c + ch) * inner + r)) [0..<inner]) [0..<n])"

text \<open>Normalisation with the statistics \<open>mu\<close> and \<open>var\<close>, then the affine map, channel by channel.\<close>

definition normalise_sample :: "BatchNorm \<Rightarrow> real list \<Rightarrow> real list \<Rightarrow> nat \<Rightarrow> nat \<Rightarrow> real list \<Rightarrow> real list" where
  "normalise_sample m mu var c inner xs =
     concat (map (\<lambda>ch.
       map (\<lambda>r. (xs ! (ch * inner + r) - mu ! ch) / sqrt (var ! ch + eps m)
                   * data (BatchNorm.weight m) ! ch
                 + data (BatchNorm.bias m) ! ch)
         [0..<inner])
     [0..<c])"

text \<open>
  \<^verbatim>\<open>_BatchNorm.forward\<close>: the check of the number of dimensions; in training mode the
  counter is incremented before anything else is looked at; \<^verbatim>\<open>F.batch_norm\<close> then
  refuses, in training mode, a batch with a single value per channel; an input without
  elements is returned as it is; the number of channels must be \<^verbatim>\<open>num_features\<close>. In
  training mode the batch statistics normalise the input and update the running
  statistics (the variance unbiased); otherwise the running statistics normalise it.
\<close>

definition batch_norm :: "nat list \<Rightarrow> BatchNorm \<Rightarrow> real tensor \<Rightarrow> (error + real tensor) \<times> BatchNorm" where
  "batch_norm dims m x =
     (if length (shape x) \<notin> set dims \<or> length (shape x) < 2 then (Inl ValueError, m)
      else
        let n = shape x ! 0; c = shape x ! 1; inner = prod_list (drop 2 (shape x));
            m1 = (if training m then m\<lparr>num_batches_tracked := num_batches_tracked m + 1\<rparr> else m)
        in
        if training m \<and> n * inner = 1 then (Inl ValueError, m1)
        else if numel x = 0 then (Inr (Tensor (shape x) []), m1)
        else if c \<noteq> num_features m then (Inl RuntimeError, m1)
        else if training m then
          let vals = map (channel_values n c inner (data x)) [0..<c];
              mu = map mean vals;
              var = map (\<lambda>vs. sq_dev vs / real (length vs)) vals;
              var_unbiased = map (\<lambda>vs. sq_dev vs / real (length vs - 1)) vals
          in (Inr (Tensor (shape x)
                     (per_sample n (c * inner) (normalise_sample m mu var c inner) (data x))),
              m1\<lparr>running_mean :=
                    Tensor [c] (map (\<lambda>ch. (1 - momentum m) * data (running_mean m) ! ch
                                           + momentum m * mu ! ch) [0..<c]),
                  running_var :=
                    Tensor [c] (map (\<lambda>ch. (1 - momentum m) * data (running_var m) ! ch
                                           + momentum m * var_unbiased ! ch) [0..<c])\<rparr>)
        else (Inr (Tensor (shape x)
                     (per_sample n (c * inner)
                        (normalise_sample m (data (running_mean m)) (data (running_var m)) c inner)
                        (data x))),
              m1))"

definition BatchNorm1d_forward :: "BatchNorm \<Rightarrow> real tensor \<Rightarrow> (error + real tensor) \<times> BatchNorm" where
  "BatchNorm1d_forward = batch_norm [2, 3]"

definition BatchNorm2d_forward :: "BatchNorm \<Rightarrow> real tensor \<Rightarrow> (error + real tensor) \<times> BatchNorm" where
  "BatchNorm2d_forward = batch_norm [4]"

definition BatchNorm_num_params :: "BatchNorm \<Rightarrow> nat" where
  "BatchNorm_num_params m = numel (BatchNorm.weight m) + numel (BatchNorm.bias m)"

subsection \<open>\<^verbatim>\<open>F.max_pool2d\<close>\<close>

text \<open>
  The padding of a pooling window is ignored by the maximum. A padding of more than half
  the kernel is refused, so no window is empty.
\<close>

definition pool_window :: "real list \<Rightarrow> nat \<Rightarrow> nat \<Rightarrow> nat \<Rightarrow> nat \<Rightarrow> nat \<Rightarrow> nat \<Rightarrow> nat \<Rightarrow> nat \<Rightarrow> real list" where
  "pool_window xs h w k s p ch i j =
     [xs ! ((ch * h + (i * s + ki - p)) * w + (j * s + kj - p)).
        ki \<leftarrow> [0..<k], kj \<leftarrow> [0..<k],
        p \<le> i * s + ki \<and> i * s + ki < h + p \<and> p \<le> j * s + kj \<and> j * s + kj < w + p]"

definition max_pool2d_sample :: "nat \<Rightarrow> nat \<Rightarrow> nat \<Rightarrow> nat \<Rightarrow> nat \<Rightarrow> nat \<Rightarrow> real list \<Rightarrow> real list" where
  "max_pool2d_sample c h w k s p xs =
     concat (map (\<lambda>ch.
       concat (map (\<lambda>i.
         map (\<lambda>j. Max (set (pool_window xs h w k s p ch i j)))
         [0..<conv_out_size w k s p])
       [0..<conv_out_size h k s p]))
     [0..<c])"

definition max_pool2d :: "real tensor \<Rightarrow> nat \<Rightarrow> nat \<Rightarrow> nat \<Rightarrow> error + real tensor" where
  "max_pool2d x k s p =
     (case shape x of
        [n, c, h, w] \<Rightarrow>
          if c = 0 \<or> h = 0 \<or> w = 0 \<or> k = 0 \<or> s = 0 \<or> k < 2 * p \<or> h + 2 * p < k \<or> w + 2 * p < k
          then Inl RuntimeError
          else Inr (Tensor [n, c, conv_out_size h k s p, conv_out_size w k s p]
                 (per_sample n (c * h * w) (max_pool2d_sample c h w k s p) (data x)))
      | [c, h, w] \<Rightarrow>
          if c = 0 \<or> h = 0 \<or> w = 0 \<or> k = 0 \<or> s = 0 \<or> k < 2 * p \<or> h + 2 * p < k \<or> w + 2 * p < k
          then Inl RuntimeError
          else Inr (Tensor [c, conv_out_size h k s p, conv_out_size w k s p]
                 (max_pool2d_sample c h w k s p (data x)))
      | _ \<Rightarrow> Inl RuntimeError)"

subsection \<open>\<^verbatim>\<open>nn.Embedding\<close>\<close>

record Embedding =
  num_embeddings :: nat
  embedding_dim :: nat
  weight :: "real tensor"

definition Embedding_init :: "initialiser \<Rightarrow> string \<Rightarrow> nat \<Rightarrow> nat \<Rightarrow> Embedding" where
  "Embedding_init init name n d =
     \<lparr>num_embeddings = n, embedding_dim = d, weight = param init (name @ ''.weight'') [n, d]\<rparr>"

text \<open>An index outside \<open>[0, num_embeddings)\<close> raises \<^verbatim>\<open>IndexError\<close>.\<close>

definition Embedding_forward :: "Embedding \<Rightarrow> int tensor \<Rightarrow> error + real tensor" where
  "Embedding_forward m x =
     (if list_ex (\<lambda>i. i < 0 \<or> int (num_embeddings m) \<le> i) (data x) then Inl IndexError
      else Inr (Tensor (shape x @ [embedding_dim m])
             (concat (map (\<lambda>i. map (\<lambda>k. data (Embedding.weight m) ! (nat i * embedding_dim m + k))
                                     [0..<embedding_dim m])
                          (data x)))))"

definition Embedding_num_params :: "Embedding \<Rightarrow> nat" where
  "Embedding_num_params m = numel (Embedding.weight m)"


section \<open>\<^verbatim>\<open>EncoderBurgess\<close>\<close>

record EncoderBurgess =
  latent_dim :: nat
  img_size :: "nat list"
  reshape :: "nat list"
  conv1 :: Conv2d
  conv2 :: Conv2d
  conv3 :: Conv2d
  conv_64 :: "Conv2d option"
  lin1 :: Linear
  lin2 :: Linear
  mu_logvar_gen :: Linear

text \<open>
  Lines 19-69. \<^verbatim>\<open>img_size\<close> is a tuple read at the positions 0, 1 and 2. The attribute
  \<^verbatim>\<open>conv_64\<close> exists only when the declared height and width are both 64.
\<close>

definition EncoderBurgess_init :: "initialiser \<Rightarrow> nat list \<Rightarrow> nat \<Rightarrow> error + EncoderBurgess" where
  "EncoderBurgess_init init img_size_arg latent_dim_arg =
     (let hid_channels = 32; kernel = 4; hidden_dim = 256;
          reshape_shape = [hid_channels, kernel, kernel] in
      thn (tuple_get img_size_arg 0) (\<lambda>n_chan.
      thn (tuple_get img_size_arg 1) (\<lambda>height.
      thn (tuple_get img_size_arg 2) (\<lambda>width.
        Inr \<lparr>latent_dim = latent_dim_arg, img_size = img_size_arg, reshape = reshape_shape,
             conv1 = Conv2d_init init ''conv1'' n_chan hid_channels kernel 2 1,
             conv2 = Conv2d_init init ''conv2'' hid_channels hid_channels kernel 2 1,
             conv3 = Conv2d_init init ''conv3'' hid_channels hid_channels kernel 2 1,
             conv_64 = (if height = width \<and> width = 64
                        then Some (Conv2d_init init ''conv_64'' hid_channels hid_channels kernel 2 1)
                        else None),
             lin1 = Linear_init init ''lin1'' (prod_list reshape_shape) hidden_dim,
             lin2 = Linear_init init ''lin2'' hidden_dim hidden_dim,
             mu_logvar_gen = Linear_init init ''mu_logvar_gen'' hidden_dim (latent_dim_arg * 2)\<rparr>))))"

text \<open>The convolutions registered on an instance, and the number of its parameters.\<close>

definition EncoderBurgess_conv_layers :: "EncoderBurgess \<Rightarrow> Conv2d list" where
  "EncoderBurgess_conv_layers self =
     [EncoderBurgess.conv1 self, EncoderBurgess.conv2 self, EncoderBurgess.conv3 self]
     @ (case conv_64 self of None \<Rightarrow> [] | Some c \<Rightarrow> [c])"

definition EncoderBurgess_num_params :: "EncoderBurgess \<Rightarrow> nat" where
  "EncoderBurgess_num_params self =
     sum_list (map Conv2d_num_params (EncoderBurgess_conv_layers self))
     + Linear_num_params (lin1 self) + Linear_num_params (lin2 self)
     + Linear_num_params (EncoderBurgess.mu_logvar_gen self)"

text \<open>Lines 75-79: the convolutions with their ReLU activations.\<close>

definition EncoderBurgess_convs :: "EncoderBurgess \<Rightarrow> real tensor \<Rightarrow> error + real tensor" where
  "EncoderBurgess_convs self x =
     thn (Conv2d_forward (EncoderBurgess.conv1 self) x) (\<lambda>x. let x = relu x in
     thn (Conv2d_forward (EncoderBurgess.conv2 self) x) (\<lambda>x. let x = relu x in
     thn (Conv2d_forward (EncoderBurgess.conv3 self) x) (\<lambda>x. let x = relu x in
     thn (tuple_get (img_size self) 1) (\<lambda>height.
     thn (tuple_get (img_size self) 2) (\<lambda>width.
       if height = width \<and> width = 64
       then (case conv_64 self of
               None \<Rightarrow> Inl AttributeError
             | Some c \<Rightarrow> thn (Conv2d_forward c x) (\<lambda>x. Inr (relu x)))
       else Inr x)))))"

text \<open>Lines 72-88: up to the output of the last linear layer.\<close>

definition EncoderBurgess_mu_logvar :: "EncoderBurgess \<Rightarrow> real tensor \<Rightarrow> error + real tensor" where
  "EncoderBurgess_mu_logvar self x =
     thn (size0 x) (\<lambda>batch_size.
     thn (EncoderBurgess_convs self x) (\<lambda>x.
     thn (view x [int batch_size, - 1]) (\<lambda>x.
     thn (Linear_forward (lin1 self) x) (\<lambda>x. let x = relu x in
     thn (Linear_forward (lin2 self) x) (\<lambda>x. let x = relu x in
     Linear_forward (EncoderBurgess.mu_logvar_gen self) x)))))"

text \<open>Lines 71-91. The unpacking of line 89 needs exactly two tensors.\<close>

definition EncoderBurgess_forward :: "EncoderBurgess \<Rightarrow> real tensor \<Rightarrow> error + real tensor \<times> real tensor" where
  "EncoderBurgess_forward self x =
     thn (EncoderBurgess_mu_logvar self x) (\<lambda>mu_logvar.
     thn (view mu_logvar [- 1, int (EncoderBurgess.latent_dim self), 2]) (\<lambda>v.
     thn (unbind_last v) (\<lambda>outs.
       case outs of [mu, logvar] \<Rightarrow> Inr (mu, logvar) | _ \<Rightarrow> Inl ValueError)))"

section \<open>Forward passes that update their module\<close>

text \<open>
  A step takes the module and returns its result, or the exception it raised, with the
  module as the step left it: what a layer has written stays written when a later step
  raises.
\<close>

type_synonym ('s, 'a) action = "'s \<Rightarrow> (error + 'a) \<times> 's"

definition lift :: "error + 'a \<Rightarrow> ('s, 'a) action" where
  "lift r = (\<lambda>s. (r, s))"

definition reads :: "('s \<Rightarrow> error + 'a) \<Rightarrow> ('s, 'a) action" where
  "reads f = (\<lambda>s. (f s, s))"

definition and_then :: "('s, 'a) action \<Rightarrow> ('a \<Rightarrow> ('s, 'b) action) \<Rightarrow> ('s, 'b) action" where
  "and_then m f = (\<lambda>s. case m s of (Inl e, s') \<Rightarrow> (Inl e, s') | (Inr v, s') \<Rightarrow> f v s')"

text \<open>A call of a sub-layer that is read with \<open>get\<close> and written back with \<open>put\<close>.\<close>

definition on_layer :: "('s \<Rightarrow> 'l) \<Rightarrow> ('l \<Rightarrow> 's \<Rightarrow> 's) \<Rightarrow> ('l \<Rightarrow> (error + 'a) \<times> 'l) \<Rightarrow> ('s, 'a) action" where
  "on_layer get put step = (\<lambda>s. case step (get s) of (r, l) \<Rightarrow> (r, put l s))"

section \<open>\<^verbatim>\<open>ConvEncoder\<close>\<close>

record ConvEncoder =
  latent_dim :: nat
  conv1 :: Conv2d
  bn1 :: BatchNorm
  conv2 :: Conv2d
  bn2 :: BatchNorm
  conv3 :: Conv2d
  bn3 :: BatchNorm
  fc1 :: Linear
  bn1_fc :: BatchNorm
  fc2 :: Linear
  bn2_fc :: BatchNorm
  mu_logvar_gen :: Linear

text \<open>Lines 95-111.\<close>

definition ConvEncoder_init :: "initialiser \<Rightarrow> nat \<Rightarrow> ConvEncoder" where
  "ConvEncoder_init init output_dim =
     \<lparr>latent_dim = output_dim,
      conv1 = Conv2d_init init ''conv1'' 3 64 5 1 2,
      bn1 = BatchNorm_init 64,
      conv2 = Conv2d_init init ''conv2'' 64 64 5 1 2,
      bn2 = BatchNorm_init 64,
      conv3 = Conv2d_init init ''conv3'' 64 128 5 1 2,
      bn3 = BatchNorm_init 128,
      fc1 = Linear_init init ''fc1'' 8192 3072,
      bn1_fc = BatchNorm_init 3072,
      fc2 = Linear_init init ''fc2'' 3072 2048,
      bn2_fc = BatchNorm_init 2048,
      mu_logvar_gen = Linear_init init ''mu_logvar_gen'' 2048 (output_dim * 2)\<rparr>"

text \<open>Lines 117-124, from the reshaped input \<open>h\<close> to the output of the last linear layer.\<close>

definition ConvEncoder_hidden :: "nat \<Rightarrow> real tensor \<Rightarrow> (ConvEncoder, real tensor) action" where
  "ConvEncoder_hidden batch_size h =
     and_then (reads (\<lambda>self. Conv2d_forward (ConvEncoder.conv1 self) h)) (\<lambda>h.
     and_then (on_layer bn1 (\<lambda>l self. self\<lparr>bn1 := l\<rparr>) (\<lambda>l. BatchNorm2d_forward l h)) (\<lambda>h.
     and_then (lift (max_pool2d (LeakyReLU h) 3 2 1)) (\<lambda>h.
     and_then (reads (\<lambda>self. Conv2d_forward (ConvEncoder.conv2 self) h)) (\<lambda>h.
     and_then (on_layer bn2 (\<lambda>l self. self\<lparr>bn2 := l\<rparr>) (\<lambda>l. BatchNorm2d_forward l h)) (\<lambda>h.
     and_then (lift (max_pool2d (LeakyReLU h) 3 2 1)) (\<lambda>h.
     and_then (reads (\<lambda>self. Conv2d_forward (ConvEncoder.conv3 self) h)) (\<lambda>h.
     and_then (on_layer bn3 (\<lambda>l self. self\<lparr>bn3 := l\<rparr>) (\<lambda>l. BatchNorm2d_forward l h)) (\<lambda>h.
     let h = LeakyReLU h in
     and_then (lift (view h [int batch_size, - 1])) (\<lambda>h.
     and_then (reads (\<lambda>self. Linear_forward (fc1 self) h)) (\<lambda>h.
     and_then (on_layer bn1_fc (\<lambda>l self. self\<lparr>bn1_fc := l\<rparr>) (\<lambda>l. BatchNorm1d_forward l h)) (\<lambda>h.
     let h = LeakyReLU h in
     and_then (reads (\<lambda>self. Linear_forward (fc2 self) h)) (\<lambda>h.
     and_then (on_layer bn2_fc (\<lambda>l self. self\<lparr>bn2_fc := l\<rparr>) (\<lambda>l. BatchNorm1d_forward l h)) (\<lambda>h.
     let h = LeakyReLU h in
     reads (\<lambda>self. Linear_forward (ConvEncoder.mu_logvar_gen self) h))))))))))))))"

text \<open>Line 126.\<close>

definition ConvEncoder_split :: "nat \<Rightarrow> real tensor \<Rightarrow> (ConvEncoder, real tensor list) action" where
  "ConvEncoder_split batch_size mu_logvar =
     reads (\<lambda>self.
       thn (view mu_logvar [int batch_size, int (ConvEncoder.latent_dim self), 2]) unbind_last)"

text \<open>Lines 113-128. The returned tuple is the list of the unbound tensors.\<close>

definition ConvEncoder_forward :: "ConvEncoder \<Rightarrow> real tensor \<Rightarrow> (error + real tensor list) \<times> ConvEncoder" where
  "ConvEncoder_forward self inputs =
     (case shape inputs of
        [batch_size, channel, width, height] \<Rightarrow>
          and_then (lift (view inputs [- 1, int channel, int width, int height])) (\<lambda>h.
          and_then (ConvEncoder_hidden batch_size h) (\<lambda>mu_logvar.
          ConvEncoder_split batch_size mu_logvar)) self
      | _ \<Rightarrow> (Inl AssertionError, self))"

text \<open>The same forward pass with the reshape of line 116 taken out.\<close>

definition ConvEncoder_forward_without_reshape ::
    "ConvEncoder \<Rightarrow> real tensor \<Rightarrow> (error + real tensor list) \<times> ConvEncoder" where
  "ConvEncoder_forward_without_reshape self inputs =
     (case shape inputs of
        [batch_size, channel, width, height] \<Rightarrow>
          and_then (ConvEncoder_hidden batch_size inputs) (\<lambda>mu_logvar.
          ConvEncoder_split batch_size mu_logvar) self
      | _ \<Rightarrow> (Inl AssertionError, self))"

section \<open>\<^verbatim>\<open>DomainEncoder\<close>\<close>

record DomainEncoder =
  latent_dim :: nat
  embed :: Embedding
  bn :: BatchNorm
  mu_logvar_gen :: Linear

text \<open>Lines 133-141.\<close>

definition DomainEncoder_init :: "initialiser \<Rightarrow> nat \<Rightarrow> nat \<Rightarrow> DomainEncoder" where
  "DomainEncoder_init init num_domains output_dim =
     \<lparr>latent_dim = output_dim,
      embed = Embedding_init init ''embed'' num_domains 512,
      bn = BatchNorm_init 512,
      mu_logvar_gen = Linear_init init ''mu_logvar_gen'' 512 (output_dim * 2)\<rparr>"

text \<open>Lines 146-147.\<close>

definition DomainEncoder_hidden :: "int tensor \<Rightarrow> (DomainEncoder, real tensor) action" where
  "DomainEncoder_hidden inputs =
     and_then (reads (\<lambda>self. Embedding_forward (embed self) inputs)) (\<lambda>h.
     and_then (on_layer bn (\<lambda>l self. self\<lparr>bn := l\<rparr>) (\<lambda>l. BatchNorm1d_forward l h)) (\<lambda>h.
     let h = LeakyReLU h in
     reads (\<lambda>self. Linear_forward (DomainEncoder.mu_logvar_gen self) h)))"

text \<open>Lines 143-150.\<close>

definition DomainEncoder_forward :: "DomainEncoder \<Rightarrow> int tensor \<Rightarrow> (error + real tensor list) \<times> DomainEncoder" where
  "DomainEncoder_forward self inputs =
     and_then (lift (size0 inputs)) (\<lambda>batch_size.
     and_then (DomainEncoder_hidden inputs) (\<lambda>mu_logvar.
     reads (\<lambda>self.
       thn (view mu_logvar [int batch_size, int (DomainEncoder.latent_dim self), 2]) unbind_last)))
     self"


section \<open>Architectures\<close>

text \<open>
  The hyper-parameters of a layer and of an encoder: what the constructor fixes and no
  forward pass, optimiser step or change of mode alters. Two instances with the same
  hyper-parameters differ in the values of their parameters and buffers and in their
  \<^verbatim>\<open>training\<close> flags only.
\<close>

definition Conv2d_hyper :: "Conv2d \<Rightarrow> nat \<times> nat \<times> nat \<times> nat \<times> nat" where
  "Conv2d_hyper m = (in_channels m, out_channels m, kernel_size m, stride m, padding m)"

definition Linear_hyper :: "Linear \<Rightarrow> nat \<times> nat" where
  "Linear_hyper m = (in_features m, out_features m)"

definition Embedding_hyper :: "Embedding \<Rightarrow> nat \<times> nat" where
  "Embedding_hyper m = (num_embeddings m, embedding_dim m)"

definition EncoderBurgess_hyper ::
    "EncoderBurgess \<Rightarrow> (nat \<times> nat list) \<times> (nat \<times> nat \<times> nat \<times> nat \<times> nat) list
       \<times> (nat \<times> nat \<times> nat \<times> nat \<times> nat) option \<times> (nat \<times> nat) list" where
  "EncoderBurgess_hyper self =
     ((EncoderBurgess.latent_dim self, img_size self),
      map Conv2d_hyper [EncoderBurgess.conv1 self, EncoderBurgess.conv2 self, EncoderBurgess.conv3 self],
      map_option Conv2d_hyper (conv_64 self),
      map Linear_hyper [lin1 self, lin2 self, EncoderBurgess.mu_logvar_gen self])"

definition ConvEncoder_hyper ::
    "ConvEncoder \<Rightarrow> nat \<times> (nat \<times> nat \<times> nat \<times> nat \<times> nat) list \<times> nat list \<times> (nat \<times> nat) list" where
  "ConvEncoder_hyper self =
     (ConvEncoder.latent_dim self,
      map Conv2d_hyper [ConvEncoder.conv1 self, ConvEncoder.conv2 self, ConvEncoder.conv3 self],
      map num_features [bn1 self, bn2 self, bn3 self, bn1_fc self, bn2_fc self],
      map Linear_hyper [fc1 self, fc2 self, ConvEncoder.mu_logvar_gen self])"

definition DomainEncoder_hyper :: "DomainEncoder \<Rightarrow> nat \<times> (nat \<times> nat) \<times> nat \<times> (nat \<times> nat)" where
  "DomainEncoder_hyper self =
     (DomainEncoder.latent_dim self, Embedding_hyper (embed self), num_features (bn self),
      Linear_hyper (DomainEncoder.mu_logvar_gen self))"

text \<open>The \<^verbatim>\<open>training\<close> flags of the batch-normalisation layers of an encoder.\<close>

definition ConvEncoder_training :: "ConvEncoder \<Rightarrow> bool list" where
  "ConvEncoder_training self = map training [bn1 self, bn2 self, bn3 self, bn1_fc self, bn2_fc self]"

section \<open>Parameters\<close>

text \<open>
  The learnable tensors of a layer and of an encoder, as \<^verbatim>\<open>nn.Module.parameters()\<close> lists
  them. The buffers of a batch-normalisation layer are not among them.
\<close>

definition Conv2d_parameters :: "Conv2d \<Rightarrow> real tensor list" where
  "Conv2d_parameters m = [Conv2d.weight m, Conv2d.bias m]"

definition Linear_parameters :: "Linear \<Rightarrow> real tensor list" where
  "Linear_parameters m = [Linear.weight m, Linear.bias m]"

definition BatchNorm_parameters :: "BatchNorm \<Rightarrow> real tensor list" where
  "BatchNorm_parameters m = [BatchNorm.weight m, BatchNorm.bias m]"

definition ConvEncoder_parameters :: "ConvEncoder \<Rightarrow> real tensor list" where
  "ConvEncoder_parameters self =
     Conv2d_parameters (ConvEncoder.conv1 self) @ BatchNorm_parameters (bn1 self)
     @ Conv2d_parameters (ConvEncoder.conv2 self) @ BatchNorm_parameters (bn2 self)
     @ Conv2d_parameters (ConvEncoder.conv3 self) @ BatchNorm_parameters (bn3 self)
     @ Linear_parameters (fc1 self) @ BatchNorm_parameters (bn1_fc self)
     @ Linear_parameters (fc2 self) @ BatchNorm_parameters (bn2_fc self)
     @ Linear_parameters (ConvEncoder.mu_logvar_gen self)"

definition DomainEncoder_parameters :: "DomainEncoder \<Rightarrow> real tensor list" where
  "DomainEncoder_parameters self =
     [Embedding.weight (embed self)] @ BatchNorm_parameters (bn self)
     @ Linear_parameters (DomainEncoder.mu_logvar_gen self)"

section \<open>Steps that succeed\<close>

text \<open>
  \<open>succeeds I m P\<close>: from every module that satisfies \<open>I\<close>, the step \<open>m\<close> returns a value
  that satisfies \<open>P\<close> and leaves a module that satisfies \<open>I\<close>.
\<close>

definition succeeds :: "('s \<Rightarrow> bool) \<Rightarrow> ('s, 'a) action \<Rightarrow> ('a \<Rightarrow> bool) \<Rightarrow> bool" where
  "succeeds I m P \<longleftrightarrow> (\<forall>s. I s \<longrightarrow> (\<exists>v s'. m s = (Inr v, s') \<and> I s' \<and> P v))"

text \<open>\<open>raises_only E m\<close>: an exception that the step \<open>m\<close> raises satisfies \<open>E\<close>.\<close>

definition raises_only :: "(error \<Rightarrow> bool) \<Rightarrow> ('s, 'a) action \<Rightarrow> bool" where
  "raises_only E m \<longleftrightarrow> (\<forall>s e. fst (m s) = Inl e \<longrightarrow> E e)"

text \<open>\<open>keeps R m\<close>: the module that the step \<open>m\<close> leaves is related by \<open>R\<close> to the one it found.\<close>

definition keeps :: "('s \<Rightarrow> 's \<Rightarrow> bool) \<Rightarrow> ('s, 'a) action \<Rightarrow> bool" where
  "keeps R m \<longleftrightarrow> (\<forall>s. R s (snd (m s)))"

text \<open>
  \<open>ensures I m P\<close>: when the step \<open>m\<close> returns from a module that satisfies \<open>I\<close>, the value
  satisfies \<open>P\<close> and the module it leaves satisfies \<open>I\<close>.
\<close>

definition ensures :: "('s \<Rightarrow> bool) \<Rightarrow> ('s, 'a) action \<Rightarrow> ('a \<Rightarrow> bool) \<Rightarrow> bool" where
  "ensures I m P \<longleftrightarrow> (\<forall>s v s'. I s \<longrightarrow> m s = (Inr v, s') \<longrightarrow> I s' \<and> P v)"

section \<open>What a forward pass may change\<close>

text \<open>
  \<open>ConvEncoder_frame s s'\<close>: \<open>s'\<close> has the parameters, the architecture and the training flags
  of \<open>s\<close>, and is \<open>s\<close> itself when no batch-normalisation layer of \<open>s\<close> is in training mode.
  Likewise for \<^verbatim>\<open>DomainEncoder\<close>.
\<close>

definition ConvEncoder_frame :: "ConvEncoder \<Rightarrow> ConvEncoder \<Rightarrow> bool" where
  "ConvEncoder_frame s s' \<longleftrightarrow>
     ConvEncoder_parameters s' = ConvEncoder_parameters s
     \<and> ConvEncoder_hyper s' = ConvEncoder_hyper s
     \<and> ConvEncoder_training s' = ConvEncoder_training s
     \<and> (if True \<in> set (ConvEncoder_training s) then True else s' = s)"

definition DomainEncoder_frame :: "DomainEncoder \<Rightarrow> DomainEncoder \<Rightarrow> bool" where
  "DomainEncoder_frame s s' \<longleftrightarrow>
     DomainEncoder_parameters s' = DomainEncoder_parameters s
     \<and> DomainEncoder_hyper s' = DomainEncoder_hyper s
     \<and> training (bn s') = training (bn s)
     \<and> (if training (bn s) then True else s' = s)"

section \<open>Modes and example instances\<close>

text \<open>\<^verbatim>\<open>nn.Module.eval()\<close> clears the \<^verbatim>\<open>training\<close> flag of every sub-module.\<close>

definition ConvEncoder_eval :: "ConvEncoder \<Rightarrow> ConvEncoder" where
  "ConvEncoder_eval self =
     self\<lparr>bn1 := (bn1 self)\<lparr>training := False\<rparr>,
          bn2 := (bn2 self)\<lparr>training := False\<rparr>,
          bn3 := (bn3 self)\<lparr>training := False\<rparr>,
          bn1_fc := (bn1_fc self)\<lparr>training := False\<rparr>,
          bn2_fc := (bn2_fc self)\<lparr>training := False\<rparr>\<rparr>"

definition DomainEncoder_eval :: "DomainEncoder \<Rightarrow> DomainEncoder" where
  "DomainEncoder_eval self = self\<lparr>bn := (bn self)\<lparr>training := False\<rparr>\<rparr>"

text \<open>An initialiser that sets every parameter to zero.\<close>

definition zero_init :: initialiser where
  "zero_init name i = 0"

section \<open>Batches that share a sample\<close>

text \<open>
  \<open>agree_at i n n' x y\<close>: \<open>x\<close> is a batch of \<open>n\<close> samples and \<open>y\<close> a batch of \<open>n'\<close> samples of the
  same shape, and the two have the same sample at index \<open>i\<close>.
\<close>

definition agree_at :: "nat \<Rightarrow> nat \<Rightarrow> nat \<Rightarrow> 'a tensor \<Rightarrow> 'a tensor \<Rightarrow> bool" where
  "agree_at i n n' x y \<longleftrightarrow>
     (\<exists>rest. shape x = n # rest \<and> shape y = n' # rest \<and> i < n \<and> i < n'
        \<and> sample (prod_list rest) (data x) i = sample (prod_list rest) (data y) i)"

text \<open>
  \<open>both_return I m m' P\<close>: when the steps \<open>m\<close> and \<open>m'\<close> both return from a module that
  satisfies \<open>I\<close>, they leave the module as it was and their values are related by \<open>P\<close>.
\<close>

definition both_return ::
    "('s \<Rightarrow> bool) \<Rightarrow> ('s, 'a) action \<Rightarrow> ('s, 'a) action \<Rightarrow> ('a \<Rightarrow> 'a \<Rightarrow> bool) \<Rightarrow> bool" where
  "both_return I m m' P \<longleftrightarrow>
     (\<forall>s v t v' t'. I s \<longrightarrow> m s = (Inr v, t) \<longrightarrow> m' s = (Inr v', t') \<longrightarrow>
        t = s \<and> t' = s \<and> P v v')"

section \<open>Properties of \<^verbatim>\<open>get_encoder\<close>\<close>

lemma capitalize_burgess: "capitalize ''burgess'' = ''Burgess''"
  by code_simp

lemma eval_name_EncoderBurgess: "eval_name ''EncoderBurgess'' = Some (Inr Class_EncoderBurgess)"
  by code_simp

text \<open>Whatever the letter case of \<^verbatim>\<open>burgess\<close>, the factory returns the class \<^verbatim>\<open>EncoderBurgess\<close>.\<close>

lemma get_encoder_burgess:
  "lower s = ''burgess'' \<Longrightarrow> get_encoder s = Some (Inr Class_EncoderBurgess)"
  unfolding get_encoder_def Let_def
  by (simp only: capitalize_burgess) (simp add: eval_name_EncoderBurgess)

text \<open>
  A name bound in the module is found only if it begins with \<^verbatim>\<open>Encoder\<close>: no string at all
  makes the factory return \<^verbatim>\<open>ConvEncoder\<close> or \<^verbatim>\<open>DomainEncoder\<close> by name.
\<close>

lemma get_encoder_only_burgess:
  "get_encoder s = Some (Inr v) \<Longrightarrow> v = Class_EncoderBurgess"
  by (auto simp: get_encoder_def eval_name_def module_globals_def Let_def
           split: if_splits option.splits)

text \<open>
  Claim C2. The factory is to resolve a name for each of the three encoders, in any letter
  case. It resolves \<^verbatim>\<open>burgess\<close>; for the two classes whose names do not follow the
  convention of line 12 (\<^verbatim>\<open>Encoder<Model>\<close>), the names \<^verbatim>\<open>Conv\<close>, \<^verbatim>\<open>ConvEncoder\<close>, \<^verbatim>\<open>Domain\<close> and
  \<^verbatim>\<open>DomainEncoder\<close> all end in \<^verbatim>\<open>NameError\<close>.
\<close>

theorem get_encoder_conv_domain_NameError:
  "get_encoder ''Conv'' = Some (Inl NameError)
   \<and> get_encoder ''ConvEncoder'' = Some (Inl NameError)
   \<and> get_encoder ''Domain'' = Some (Inl NameError)
   \<and> get_encoder ''DomainEncoder'' = Some (Inl NameError)
   \<and> get_encoder ''BURGESS'' = Some (Inr Class_EncoderBurgess)"
  by code_simp


section \<open>Sequencing\<close>

lemma thn_Inl [simp]: "thn (Inl e) f = Inl e"
  by (simp add: thn_def)

lemma thn_Inr [simp]: "thn (Inr v) f = f v"
  by (simp add: thn_def)

lemma thn_eq_Inr_iff: "thn r f = Inr y \<longleftrightarrow> (\<exists>v. r = Inr v \<and> f v = Inr y)"
  by (cases r) simp_all

lemma thn_eq_Inl_iff: "thn r f = Inl e \<longleftrightarrow> r = Inl e \<or> (\<exists>v. r = Inr v \<and> f v = Inl e)"
  by (cases r) simp_all

lemma lift_apply [simp]: "lift r s = (r, s)"
  by (simp add: lift_def)

lemma reads_apply [simp]: "reads f s = (f s, s)"
  by (simp add: reads_def)

lemma and_then_Inr: "m s = (Inr v, s') \<Longrightarrow> and_then m f s = f v s'"
  by (simp add: and_then_def)

lemma and_then_Inl: "m s = (Inl e, s') \<Longrightarrow> and_then m f s = (Inl e, s')"
  by (simp add: and_then_def)

lemma and_then_lift_Inr [simp]: "and_then (lift (Inr v)) f s = f v s"
  by (simp add: and_then_def)

lemma and_then_lift_Inl [simp]: "and_then (lift (Inl e)) f s = (Inl e, s)"
  by (simp add: and_then_def)

lemma and_then_eq_Inr_iff:
  "and_then m f s = (Inr y, t) \<longleftrightarrow> (\<exists>v s'. m s = (Inr v, s') \<and> f v s' = (Inr y, t))"
  by (cases "m s"; cases "fst (m s)") (auto simp: and_then_def)

lemma on_layer_apply: "on_layer get put step s = (fst (step (get s)), put (snd (step (get s))) s)"
  by (simp add: on_layer_def split: prod.splits)

section \<open>Blocks\<close>

lemma length_concat_const:
  "(\<And>x. x \<in> set xs \<Longrightarrow> length (f x) = k) \<Longrightarrow> length (concat (map f xs)) = length xs * k"
  by (induction xs) simp_all

lemma length_per_sample:
  "(\<And>ys. length (f ys) = k) \<Longrightarrow> length (per_sample n m f xs) = n * k"
  by (simp add: per_sample_def length_concat_const)

lemma per_sample_Suc:
  "per_sample (Suc n) m f xs = per_sample n m f xs @ f (sample m xs n)"
  by (simp add: per_sample_def)

lemma sample_per_sample:
  assumes len: "\<And>ys. length (f ys) = k" and i: "i < n"
  shows "sample k (per_sample n m f xs) i = f (sample m xs i)"
  using i
proof (induction n)
  case 0
  then show ?case by simp
next
  case (Suc n)
  have L: "length (per_sample n m f xs) = n * k"
    by (rule length_per_sample) (rule len)
  show ?case
  proof (cases "i < n")
    case True
    then have "Suc i * k \<le> n * k" by (simp add: Suc_leI mult_le_mono1 del: mult_Suc)
    then have "i * k + k \<le> n * k" by simp
    with Suc.IH [OF True] L show ?thesis
      by (simp add: per_sample_Suc sample_def)
  next
    case False
    with Suc.prems have "i = n" by simp
    with L len show ?thesis
      by (simp add: per_sample_Suc sample_def)
  qed
qed

section \<open>Shapes of the layers\<close>

lemma numel_Tensor [simp]: "numel (Tensor s d) = prod_list s"
  by (simp add: numel_def)

lemma shape_relu [simp]: "shape (relu t) = shape t"
  by (simp add: relu_def)

lemma shape_LeakyReLU [simp]: "shape (LeakyReLU t) = shape t"
  by (simp add: LeakyReLU_def)

lemma numel_relu [simp]: "numel (relu t) = numel t"
  by (simp add: numel_def)

lemma numel_LeakyReLU [simp]: "numel (LeakyReLU t) = numel t"
  by (simp add: numel_def)

lemma size0_Cons: "shape t = n # rest \<Longrightarrow> size0 t = Inr n"
  by (simp add: size0_def)

lemma size0_eq_Inr_iff: "size0 t = Inr n \<longleftrightarrow> (\<exists>rest. shape t = n # rest)"
  by (auto simp: size0_def split: list.splits)

lemma Conv2d_forward_eq_Inr_iff:
  "Conv2d_forward m x = Inr y \<longleftrightarrow>
     (\<exists>n h w. shape x = [n, in_channels m, h, w] \<and> stride m \<noteq> 0
        \<and> kernel_size m \<le> h + 2 * padding m \<and> kernel_size m \<le> w + 2 * padding m
        \<and> y = Tensor [n, out_channels m,
                 conv_out_size h (kernel_size m) (stride m) (padding m),
                 conv_out_size w (kernel_size m) (stride m) (padding m)]
                (per_sample n (in_channels m * h * w) (conv2d_sample m h w) (data x)))"
  by (auto simp: Conv2d_forward_def split: list.splits)

lemma Conv2d_forward_error: "Conv2d_forward m x = Inl e \<Longrightarrow> e = RuntimeError"
  by (auto simp: Conv2d_forward_def split: list.splits if_splits)

lemma Conv2d_forward_ok:
  assumes "shape x = [n, c, h, w]" "c = in_channels m" "stride m \<noteq> 0"
    "kernel_size m \<le> h + 2 * padding m" "kernel_size m \<le> w + 2 * padding m"
  shows "\<exists>y. Conv2d_forward m x = Inr y
           \<and> shape y = [n, out_channels m,
                 conv_out_size h (kernel_size m) (stride m) (padding m),
                 conv_out_size w (kernel_size m) (stride m) (padding m)]"
  using assms by (simp add: Conv2d_forward_def)

lemma Linear_forward_eq_Inr_iff:
  "Linear_forward m x = Inr y \<longleftrightarrow>
     (shape x \<noteq> [] \<and> last (shape x) = in_features m
      \<and> y = Tensor (butlast (shape x) @ [out_features m])
              (per_sample (prod_list (butlast (shape x))) (in_features m) (linear_row m) (data x)))"
  by (auto simp: Linear_forward_def split: list.splits)

lemma Linear_forward_error: "Linear_forward m x = Inl e \<Longrightarrow> e = RuntimeError"
  by (auto simp: Linear_forward_def split: list.splits if_splits)

lemma Linear_forward_2d:
  "shape x = [n, f] \<Longrightarrow>
   Linear_forward m x =
     (if f = in_features m
      then Inr (Tensor [n, out_features m] (per_sample n (in_features m) (linear_row m) (data x)))
      else Inl RuntimeError)"
  by (simp add: Linear_forward_def)

lemma infer_size_explicit:
  "\<forall>d\<in>set sizes. 0 \<le> d \<Longrightarrow>
   infer_size sizes n = (if n = prod_list (map nat sizes) then Inr (map nat sizes) else Inl RuntimeError)"
proof -
  assume a: "\<forall>d\<in>set sizes. 0 \<le> d"
  then have 1: "\<not> list_ex (\<lambda>d. d < - 1) sizes" "\<not> list_ex (\<lambda>d. d = - 1) sizes"
    by (auto simp: list_ex_iff)
  from a have 2: "count_list sizes (- 1) = 0"
    by (auto simp: count_list_0_iff)
  from a have 3: "filter (\<lambda>d. d \<noteq> - 1) sizes = sizes"
    by (auto simp: filter_id_conv)
  show ?thesis
    by (simp add: infer_size_def 1 2 3)
qed

lemma view_flatten:
  "shape x = n # rest \<Longrightarrow>
   view x [int n, - 1] =
     (if n = 0 then Inl RuntimeError else Inr (Tensor [n, prod_list rest] (data x)))"
  by (simp add: view_def infer_size_def numel_def)

lemma view_pairs:
  "shape x = [n, l * 2] \<Longrightarrow>
   view x [- 1, int l, 2] =
     (if l = 0 then Inl RuntimeError else Inr (Tensor [n, l, 2] (data x)))"
  by (simp add: view_def infer_size_def numel_def)

lemma view_pairs_explicit:
  "shape x = [n, l * 2] \<Longrightarrow> view x [int n, int l, 2] = Inr (Tensor [n, l, 2] (data x))"
  by (simp add: view_def infer_size_explicit numel_def)

lemma view_error: "view x sizes = Inl e \<Longrightarrow> e = RuntimeError"
  by (auto simp: view_def infer_size_def Let_def split: sum.splits if_splits)

lemma unbind_last_pairs:
  "shape v = [n, l, 2] \<Longrightarrow>
   unbind_last v =
     Inr [Tensor [n, l] (map (\<lambda>i. data v ! (i * 2)) [0..<n * l]),
          Tensor [n, l] (map (\<lambda>i. data v ! (i * 2 + 1)) [0..<n * l])]"
  by (simp add: unbind_last_def upt_rec [of 0 2] upt_rec [of 1 2] upt_rec [of 2 2]
      numeral_2_eq_2)

section \<open>EncoderBurgess\<close>

lemma conv_out_size_half: "2 \<le> h \<Longrightarrow> conv_out_size h 4 2 (Suc 0) = h div 2"
  by (simp add: conv_out_size_def)

lemma tuple_get_eq_Inr_iff: "tuple_get xs i = Inr v \<longleftrightarrow> i < length xs \<and> v = xs ! i"
  by (auto simp: tuple_get_def)

lemma EncoderBurgess_init_eq_Inr_iff:
  "EncoderBurgess_init init isz L = Inr e \<longleftrightarrow>
     3 \<le> length isz \<and>
     e = \<lparr>EncoderBurgess.latent_dim = L, img_size = isz, reshape = [32, 4, 4],
          EncoderBurgess.conv1 = Conv2d_init init ''conv1'' (isz ! 0) 32 4 2 1,
          EncoderBurgess.conv2 = Conv2d_init init ''conv2'' 32 32 4 2 1,
          EncoderBurgess.conv3 = Conv2d_init init ''conv3'' 32 32 4 2 1,
          conv_64 = (if isz ! 1 = isz ! 2 \<and> isz ! 2 = 64
                     then Some (Conv2d_init init ''conv_64'' 32 32 4 2 1) else None),
          lin1 = Linear_init init ''lin1'' 512 256,
          lin2 = Linear_init init ''lin2'' 256 256,
          EncoderBurgess.mu_logvar_gen = Linear_init init ''mu_logvar_gen'' 256 (L * 2)\<rparr>"
  by (auto simp: EncoderBurgess_init_def Let_def tuple_get_def)

lemma Conv2d_hyper_init [simp]: "Conv2d_hyper (Conv2d_init init name cin cout k s p) = (cin, cout, k, s, p)"
  by (simp add: Conv2d_hyper_def Conv2d_init_def)

lemma Linear_hyper_init [simp]: "Linear_hyper (Linear_init init name a b) = (a, b)"
  by (simp add: Linear_hyper_def Linear_init_def)

text \<open>What an instance with the architecture of \<open>EncoderBurgess_init init isz L\<close> consists of.\<close>

lemma EncoderBurgess_hyperD:
  assumes "EncoderBurgess_init init isz L = Inr e" "EncoderBurgess_hyper self = EncoderBurgess_hyper e"
  shows "3 \<le> length isz" "img_size self = isz" "EncoderBurgess.latent_dim self = L"
    "Conv2d_hyper (EncoderBurgess.conv1 self) = (isz ! 0, 32, 4, 2, 1)"
    "Conv2d_hyper (EncoderBurgess.conv2 self) = (32, 32, 4, 2, 1)"
    "Conv2d_hyper (EncoderBurgess.conv3 self) = (32, 32, 4, 2, 1)"
    "map_option Conv2d_hyper (conv_64 self) =
       (if isz ! 1 = isz ! 2 \<and> isz ! 2 = 64 then Some (32, 32, 4, 2, 1) else None)"
    "Linear_hyper (lin1 self) = (512, 256)"
    "Linear_hyper (lin2 self) = (256, 256)"
    "Linear_hyper (EncoderBurgess.mu_logvar_gen self) = (256, L * 2)"
  using assms by (auto simp: EncoderBurgess_init_eq_Inr_iff EncoderBurgess_hyper_def)

lemma Conv2d_forward_hyper:
  assumes "Conv2d_hyper m = (cin, cout, 4, 2, 1)" "shape x = [n, cin, h, w]" "2 \<le> h" "2 \<le> w"
  shows "\<exists>y. Conv2d_forward m x = Inr y \<and> shape y = [n, cout, h div 2, w div 2]"
  using assms by (simp add: Conv2d_forward_def Conv2d_hyper_def conv_out_size_half)

lemma relu_conv_step:
  assumes "Conv2d_hyper m = (cin, cout, 4, 2, 1)" "shape x = [n, cin, h, w]" "2 \<le> h" "2 \<le> w"
  shows "\<exists>y. thn (Conv2d_forward m x) f = f y \<and> shape y = [n, cout, h div 2, w div 2]"
  using Conv2d_forward_hyper [OF assms] by auto

lemma EncoderBurgess_convs_shape:
  assumes init: "EncoderBurgess_init init isz L = Inr e"
    and arch: "EncoderBurgess_hyper self = EncoderBurgess_hyper e"
    and x: "shape x = [n, isz ! 0, h, w]"
    and d: "d = (if isz ! 1 = isz ! 2 \<and> isz ! 2 = 64 then 16 else 8)"
    and hw: "d \<le> h" "d \<le> w"
  shows "\<exists>y. EncoderBurgess_convs self x = Inr y \<and> shape y = [n, 32, h div d, w div d]"
proof -
  note H = EncoderBurgess_hyperD [OF init arch]
  from hw d have h8: "8 \<le> h" and w8: "8 \<le> w" by (auto split: if_splits)
  from h8 have hs: "2 \<le> h" "2 \<le> h div 2" "2 \<le> h div 2 div 2" by linarith+
  from w8 have ws: "2 \<le> w" "2 \<le> w div 2" "2 \<le> w div 2 div 2" by linarith+
  obtain x1 where 1: "Conv2d_forward (EncoderBurgess.conv1 self) x = Inr x1"
    and s1: "shape x1 = [n, 32, h div 2, w div 2]"
    using Conv2d_forward_hyper [OF H(4) x hs(1) ws(1)] by auto
  obtain x2 where 2: "Conv2d_forward (EncoderBurgess.conv2 self) (relu x1) = Inr x2"
    and s2: "shape x2 = [n, 32, h div 2 div 2, w div 2 div 2]"
    using Conv2d_forward_hyper [OF H(5) _ hs(2) ws(2), of "relu x1" n] s1 by auto
  obtain x3 where 3: "Conv2d_forward (EncoderBurgess.conv3 self) (relu x2) = Inr x3"
    and s3: "shape x3 = [n, 32, h div 2 div 2 div 2, w div 2 div 2 div 2]"
    using Conv2d_forward_hyper [OF H(6) _ hs(3) ws(3), of "relu x2" n] s2
    by auto
  have div8: "h div 2 div 2 div 2 = h div 8" "w div 2 div 2 div 2 = w div 8"
    by (simp_all add: div_mult2_eq [symmetric])
  have tg: "tuple_get (img_size self) 1 = Inr (isz ! 1)" "tuple_get (img_size self) 2 = Inr (isz ! 2)"
    using H(1,2) by (simp_all add: tuple_get_def)
  show ?thesis
  proof (cases "isz ! 1 = isz ! 2 \<and> isz ! 2 = 64")
    case False
    with d have "d = 8" by simp
    with False 1 2 3 s3 div8 tg show ?thesis
      by (auto simp: EncoderBurgess_convs_def Let_def)
  next
    case True
    with d have d16: "d = 16" by simp
    from True H(7) obtain c4 where c4: "conv_64 self = Some c4" "Conv2d_hyper c4 = (32, 32, 4, 2, 1)"
      by auto
    from hw d16 have g: "2 \<le> h div 8" "2 \<le> w div 8" by linarith+
    obtain x4 where 4: "Conv2d_forward c4 (relu x3) = Inr x4"
      and s4: "shape x4 = [n, 32, h div 8 div 2, w div 8 div 2]"
      using Conv2d_forward_hyper [OF c4(2) _ g, of "relu x3" n] s3 div8 by auto
    have "h div 8 div 2 = h div 16" "w div 8 div 2 = w div 16"
      by (simp_all add: div_mult2_eq [symmetric])
    with True 1 2 3 4 s4 tg c4 d16 show ?thesis
      by (auto simp: EncoderBurgess_convs_def Let_def)
  qed
qed

text \<open>From the flattened output of the convolutions onwards (lines 82-91).\<close>

lemma EncoderBurgess_head_shape:
  assumes init: "EncoderBurgess_init init isz L = Inr e"
    and arch: "EncoderBurgess_hyper self = EncoderBurgess_hyper e"
    and f: "shape f = [n, 512]"
  shows "\<exists>ml. thn (Linear_forward (lin1 self) f) (\<lambda>x. let x = relu x in
               thn (Linear_forward (lin2 self) x) (\<lambda>x. let x = relu x in
               Linear_forward (EncoderBurgess.mu_logvar_gen self) x)) = Inr ml
          \<and> shape ml = [n, L * 2]"
proof -
  note H = EncoderBurgess_hyperD [OF init arch]
  from H(8-10) f show ?thesis
    by (simp add: Linear_forward_2d Linear_hyper_def Let_def)
qed

lemma EncoderBurgess_mu_logvar_shape:
  assumes init: "EncoderBurgess_init init isz L = Inr e"
    and arch: "EncoderBurgess_hyper self = EncoderBurgess_hyper e"
    and x: "shape x = [n, isz ! 0, h, w]"
    and d: "d = (if isz ! 1 = isz ! 2 \<and> isz ! 2 = 64 then 16 else 8)"
    and hw: "h div d = 4" "w div d = 4"
    and n: "0 < n"
  shows "\<exists>ml. EncoderBurgess_mu_logvar self x = Inr ml \<and> shape ml = [n, L * 2]"
proof -
  from hw d have "d \<le> h" "d \<le> w"
    by (auto split: if_splits intro: ccontr)
  from EncoderBurgess_convs_shape [OF init arch x d this] hw
  obtain y where y: "EncoderBurgess_convs self x = Inr y" "shape y = [n, 32, 4, 4]"
    by auto
  from y(2) n have v: "view y [int n, - 1] = Inr (Tensor [n, 512] (data y))"
    by (simp add: view_flatten)
  from EncoderBurgess_head_shape [OF init arch, of "Tensor [n, 512] (data y)" n]
  obtain ml where "thn (Linear_forward (lin1 self) (Tensor [n, 512] (data y))) (\<lambda>x. let x = relu x in
               thn (Linear_forward (lin2 self) x) (\<lambda>x. let x = relu x in
               Linear_forward (EncoderBurgess.mu_logvar_gen self) x)) = Inr ml" "shape ml = [n, L * 2]"
    by auto
  with y v x show ?thesis
    by (simp add: EncoderBurgess_mu_logvar_def size0_Cons)
qed

lemma EncoderBurgess_forward_shape:
  assumes init: "EncoderBurgess_init init isz L = Inr e"
    and arch: "EncoderBurgess_hyper self = EncoderBurgess_hyper e"
    and x: "shape x = [n, isz ! 0, h, w]"
    and d: "d = (if isz ! 1 = isz ! 2 \<and> isz ! 2 = 64 then 16 else 8)"
    and hw: "h div d = 4" "w div d = 4"
    and n: "0 < n" and L: "0 < L"
  shows "\<exists>mu logvar. EncoderBurgess_forward self x = Inr (mu, logvar)
           \<and> shape mu = [n, L] \<and> shape logvar = [n, L]"
proof -
  note H = EncoderBurgess_hyperD [OF init arch]
  from EncoderBurgess_mu_logvar_shape [OF init arch x d hw n]
  obtain ml where ml: "EncoderBurgess_mu_logvar self x = Inr ml" "shape ml = [n, L * 2]"
    by auto
  from ml(2) L have v: "view ml [- 1, int L, 2] = Inr (Tensor [n, L, 2] (data ml))"
    by (simp add: view_pairs)
  show ?thesis
    by (simp add: EncoderBurgess_forward_def ml v H(3) unbind_last_pairs)
qed

section \<open>Batch normalisation\<close>

text \<open>What no call of a batch-normalisation layer changes.\<close>

lemma batch_norm_frame:
  assumes "batch_norm dims m x = (r, m')"
  shows "num_features m' = num_features m" "eps m' = eps m" "momentum m' = momentum m"
    "BatchNorm.weight m' = BatchNorm.weight m" "BatchNorm.bias m' = BatchNorm.bias m"
    "training m' = training m"
  using assms by (auto simp: batch_norm_def Let_def split: if_splits)

lemma batch_norm_eval_state: "\<not> training m \<Longrightarrow> snd (batch_norm dims m x) = m"
  by (simp add: batch_norm_def Let_def)

lemma batch_norm_training_counter:
  "training m \<Longrightarrow> length (shape x) \<in> set dims \<Longrightarrow> 2 \<le> length (shape x) \<Longrightarrow>
   num_batches_tracked (snd (batch_norm dims m x)) = num_batches_tracked m + 1"
  by (simp add: batch_norm_def Let_def)

lemma batch_norm_shape: "batch_norm dims m x = (Inr y, m') \<Longrightarrow> shape y = shape x"
  by (auto simp: batch_norm_def Let_def split: if_splits)

lemma batch_norm_ok:
  assumes "length (shape x) \<in> set dims" "2 \<le> length (shape x)"
    and "shape x ! 1 = num_features m" and "0 < numel x"
    and "training m \<Longrightarrow> shape x ! 0 * prod_list (drop 2 (shape x)) \<noteq> 1"
  shows "\<exists>y. fst (batch_norm dims m x) = Inr y \<and> shape y = shape x"
  using assms by (auto simp: batch_norm_def Let_def)


lemma batch_norm_error:
  "fst (batch_norm dims m x) = Inl e \<Longrightarrow> e = ValueError \<or> e = RuntimeError"
  by (auto simp: batch_norm_def Let_def split: if_splits)

section \<open>Pooling\<close>

lemma max_pool2d_4d:
  assumes "shape x = [n, c, h, w]" "0 < c" "0 < h" "0 < w"
  shows "\<exists>y. max_pool2d x 3 2 1 = Inr y
           \<and> shape y = [n, c, conv_out_size h 3 2 1, conv_out_size w 3 2 1]"
  using assms by (simp add: max_pool2d_def)

lemma max_pool2d_error: "max_pool2d x k s p = Inl e \<Longrightarrow> e = RuntimeError"
  by (auto simp: max_pool2d_def split: list.splits if_splits)

lemma conv_out_size_same: "0 < h \<Longrightarrow> conv_out_size h 5 (Suc 0) 2 = h"
  by (simp add: conv_out_size_def)

lemma conv_out_size_pos: "0 < conv_out_size h k s p"
  by (simp add: conv_out_size_def)

lemma Conv2d_forward_same:
  assumes "Conv2d_hyper m = (cin, cout, 5, 1, 2)" "shape x = [n, cin, h, w]" "0 < h" "0 < w"
  shows "\<exists>y. Conv2d_forward m x = Inr y \<and> shape y = [n, cout, h, w]"
  using assms by (simp add: Conv2d_forward_def Conv2d_hyper_def conv_out_size_same)


section \<open>Rules for steps\<close>

lemma succeeds_and_then:
  assumes "succeeds I m P" and "\<And>v. P v \<Longrightarrow> succeeds I (f v) Q"
  shows "succeeds I (and_then m f) Q"
  unfolding succeeds_def
proof (intro allI impI)
  fix s assume "I s"
  with assms(1) obtain v s' where 1: "m s = (Inr v, s')" "I s'" "P v"
    by (auto simp: succeeds_def)
  from assms(2) [OF 1(3)] 1(2) obtain y t where "f v s' = (Inr y, t)" "I t" "Q y"
    by (auto simp: succeeds_def)
  with 1(1) show "\<exists>v s'. and_then m f s = (Inr v, s') \<and> I s' \<and> Q v"
    by (simp add: and_then_Inr)
qed

lemma succeeds_reads:
  assumes "\<And>s. I s \<Longrightarrow> \<exists>v. f s = Inr v \<and> P v"
  shows "succeeds I (reads f) P"
  using assms by (auto simp: succeeds_def)

lemma succeeds_lift:
  assumes "r = Inr v" "P v"
  shows "succeeds I (lift r) P"
  using assms by (auto simp: succeeds_def)

lemma succeeds_on_layer:
  assumes "\<And>s. I s \<Longrightarrow> \<exists>v. fst (step (get s)) = Inr v \<and> P v"
    and "\<And>s. I s \<Longrightarrow> I (put (snd (step (get s))) s)"
  shows "succeeds I (on_layer get put step) P"
  unfolding succeeds_def
proof (intro allI impI)
  fix s assume s: "I s"
  from assms(1) [OF s] obtain v where "fst (step (get s)) = Inr v" "P v" by auto
  with assms(2) [OF s] show "\<exists>v s'. on_layer get put step s = (Inr v, s') \<and> I s' \<and> P v"
    by (simp add: on_layer_apply)
qed

lemma succeeds_weaken:
  "succeeds I m P \<Longrightarrow> (\<And>v. P v \<Longrightarrow> Q v) \<Longrightarrow> succeeds I m Q"
  by (fastforce simp: succeeds_def)


section \<open>ConvEncoder: shapes\<close>

lemma BatchNorm_hyper_init [simp]:
  "num_features (BatchNorm_init n) = n" "training (BatchNorm_init n) = True"
  by (simp_all add: BatchNorm_init_def)

lemma ConvEncoder_hyperD:
  assumes "ConvEncoder_hyper self = ConvEncoder_hyper (ConvEncoder_init init L)"
  shows "ConvEncoder.latent_dim self = L"
    "Conv2d_hyper (ConvEncoder.conv1 self) = (3, 64, 5, 1, 2)"
    "Conv2d_hyper (ConvEncoder.conv2 self) = (64, 64, 5, 1, 2)"
    "Conv2d_hyper (ConvEncoder.conv3 self) = (64, 128, 5, 1, 2)"
    "num_features (bn1 self) = 64" "num_features (bn2 self) = 64" "num_features (bn3 self) = 128"
    "num_features (bn1_fc self) = 3072" "num_features (bn2_fc self) = 2048"
    "Linear_hyper (fc1 self) = (8192, 3072)" "Linear_hyper (fc2 self) = (3072, 2048)"
    "Linear_hyper (ConvEncoder.mu_logvar_gen self) = (2048, L * 2)"
  using assms by (simp_all add: ConvEncoder_hyper_def ConvEncoder_init_def)

lemma batch_norm_step_succeeds:
  assumes I: "\<And>s. I s \<Longrightarrow> num_features (get s) = c \<and> (training (get s) \<longrightarrow> 2 \<le> n)"
    and put: "\<And>s l. I s \<Longrightarrow> num_features l = num_features (get s) \<Longrightarrow>
                training l = training (get s) \<Longrightarrow> I (put l s)"
    and x: "shape x = n # c # rest" "0 < n" "0 < c" "0 < prod_list rest"
    and dims: "length (shape x) \<in> set dims"
  shows "succeeds I (on_layer get put (\<lambda>l. batch_norm dims l x)) (\<lambda>y. shape y = shape x)"
proof (rule succeeds_on_layer)
  fix s assume s: "I s"
  from I [OF s] have c: "num_features (get s) = c" and t: "training (get s) \<Longrightarrow> 2 \<le> n"
    by auto
  have ne: "training (get s) \<Longrightarrow> shape x ! 0 * prod_list (drop 2 (shape x)) \<noteq> 1"
  proof -
    assume "training (get s)"
    from t [OF this] x(4) have "2 \<le> n * prod_list rest"
      by (metis One_nat_def Suc_leI mult.right_neutral mult_le_mono)
    with x(1) show ?thesis by auto
  qed
  from x have "0 < numel x" by (simp add: numel_def)
  with batch_norm_ok [OF dims _ _ _ ne, of "get s"] x(1) c
  show "\<exists>v. fst (batch_norm dims (get s) x) = Inr v \<and> shape v = shape x"
    by simp
  obtain r l where rl: "batch_norm dims (get s) x = (r, l)"
    by (cases "batch_norm dims (get s) x")
  from batch_norm_frame(1,6) [OF rl] put [OF s, of l] rl
  show "I (put (snd (batch_norm dims (get s) x)) s)"
    by simp
qed


lemma ConvEncoder_inv_put:
  fixes g :: "ConvEncoder \<Rightarrow> BatchNorm" and p :: "BatchNorm \<Rightarrow> ConvEncoder \<Rightarrow> ConvEncoder"
  assumes "ConvEncoder_hyper s = H \<and> ConvEncoder_training s = T"
    and "num_features l = num_features (g s)" "training l = training (g s)"
    and "(g, p) \<in> {(bn1, \<lambda>l s. s\<lparr>bn1 := l\<rparr>), (bn2, \<lambda>l s. s\<lparr>bn2 := l\<rparr>), (bn3, \<lambda>l s. s\<lparr>bn3 := l\<rparr>),
                    (bn1_fc, \<lambda>l s. s\<lparr>bn1_fc := l\<rparr>), (bn2_fc, \<lambda>l s. s\<lparr>bn2_fc := l\<rparr>)}"
  shows "ConvEncoder_hyper (p l s) = H \<and> ConvEncoder_training (p l s) = T"
  using assms by (auto simp: ConvEncoder_hyper_def ConvEncoder_training_def)


lemma ConvEncoder_bn_succeeds:
  fixes g :: "ConvEncoder \<Rightarrow> BatchNorm" and p :: "BatchNorm \<Rightarrow> ConvEncoder \<Rightarrow> ConvEncoder"
  assumes I: "I = (\<lambda>s. ConvEncoder_hyper s = ConvEncoder_hyper (ConvEncoder_init init L)
                    \<and> ConvEncoder_training s = T)"
    and valid: "True \<in> set T \<Longrightarrow> 2 \<le> n"
    and x: "shape x = n # c # rest" "0 < n" "0 < prod_list rest"
    and gp: "(g, p, c, dims) \<in> {(bn1, \<lambda>l s. s\<lparr>bn1 := l\<rparr>, 64, [4]), (bn2, \<lambda>l s. s\<lparr>bn2 := l\<rparr>, 64, [4]),
                    (bn3, \<lambda>l s. s\<lparr>bn3 := l\<rparr>, 128, [4]),
                    (bn1_fc, \<lambda>l s. s\<lparr>bn1_fc := l\<rparr>, 3072, [2, 3]), (bn2_fc, \<lambda>l s. s\<lparr>bn2_fc := l\<rparr>, 2048, [2, 3])}"
    and dims: "length (shape x) \<in> set dims"
  shows "succeeds I (on_layer g p (\<lambda>l. batch_norm dims l x)) (\<lambda>y. shape y = shape x)"
proof (rule batch_norm_step_succeeds [where n = n and c = c and rest = rest])
  fix s assume s: "I s"
  then have h: "ConvEncoder_hyper s = ConvEncoder_hyper (ConvEncoder_init init L)"
    and t: "ConvEncoder_training s = T" by (simp_all add: I)
  note D = ConvEncoder_hyperD [OF h]
  from gp D(5-9) have "num_features (g s) = c" by auto
  moreover have "training (g s) \<longrightarrow> 2 \<le> n"
  proof
    assume "training (g s)"
    with gp t have "True \<in> set T" by (auto simp: ConvEncoder_training_def)
    then show "2 \<le> n" by (rule valid)
  qed
  ultimately show "num_features (g s) = c \<and> (training (g s) \<longrightarrow> 2 \<le> n)" ..
next
  fix s and l :: BatchNorm
  assume a: "I s" "num_features l = num_features (g s)" "training l = training (g s)"
  from gp have gp': "(g, p) \<in> {(bn1, \<lambda>l s. s\<lparr>bn1 := l\<rparr>), (bn2, \<lambda>l s. s\<lparr>bn2 := l\<rparr>), (bn3, \<lambda>l s. s\<lparr>bn3 := l\<rparr>),
                    (bn1_fc, \<lambda>l s. s\<lparr>bn1_fc := l\<rparr>), (bn2_fc, \<lambda>l s. s\<lparr>bn2_fc := l\<rparr>)}"
    by auto
  from a(1) have "ConvEncoder_hyper s = ConvEncoder_hyper (ConvEncoder_init init L) \<and> ConvEncoder_training s = T"
    by (simp add: I)
  from ConvEncoder_inv_put [OF this a(2,3) gp'] show "I (p l s)"
    by (simp add: I)
next
  show "shape x = n # c # rest" "0 < n" "0 < prod_list rest" "length (shape x) \<in> set dims"
    by (rule x dims)+
  from gp show "0 < c" by auto
qed


lemma ConvEncoder_reads_succeeds:
  assumes I: "I = (\<lambda>s. ConvEncoder_hyper s = ConvEncoder_hyper (ConvEncoder_init init L)
                    \<and> ConvEncoder_training s = T)"
    and step: "\<And>s. ConvEncoder_hyper s = ConvEncoder_hyper (ConvEncoder_init init L)
                 \<Longrightarrow> \<exists>v. f s = Inr v \<and> P v"
  shows "succeeds I (reads f) P"
  by (rule succeeds_reads) (simp add: I step)

lemma ConvEncoder_hidden_succeeds:
  assumes h: "shape h = [n, 3, w, hh]" and pos: "0 < n" "0 < w" "0 < hh"
    and flat: "128 * conv_out_size (conv_out_size w 3 2 1) 3 2 1
                   * conv_out_size (conv_out_size hh 3 2 1) 3 2 1 = 8192"
    and valid: "True \<in> set T \<Longrightarrow> 2 \<le> n"
    and I: "I = (\<lambda>s. ConvEncoder_hyper s = ConvEncoder_hyper (ConvEncoder_init init L)
                    \<and> ConvEncoder_training s = T)"
  shows "succeeds I (ConvEncoder_hidden n h) (\<lambda>ml. shape ml = [n, L * 2])"
proof -
  define w1 where "w1 = conv_out_size w 3 2 1"
  define h1 where "h1 = conv_out_size hh 3 2 1"
  define w2 where "w2 = conv_out_size w1 3 2 1"
  define h2 where "h2 = conv_out_size h1 3 2 1"
  have p1: "0 < w1" "0 < h1" "0 < w2" "0 < h2"
    by (simp_all add: w1_def h1_def w2_def h2_def conv_out_size_pos)
  from flat have flat': "128 * w2 * h2 = 8192"
    by (simp add: w1_def h1_def w2_def h2_def)
  note D = ConvEncoder_hyperD
  note bn = ConvEncoder_bn_succeeds [OF I valid _ pos(1)]
  have bn1: "succeeds I (on_layer bn1 (\<lambda>l self. self\<lparr>bn1 := l\<rparr>) (\<lambda>l. BatchNorm2d_forward l x))
        (\<lambda>y. shape y = [n, 64, w, hh])" if "shape x = [n, 64, w, hh]" for x
    unfolding BatchNorm2d_forward_def
    using bn [of x 64 "[w, hh]" bn1 "\<lambda>l self. self\<lparr>bn1 := l\<rparr>" "[4]"] that pos by simp
  have bn2: "succeeds I (on_layer bn2 (\<lambda>l self. self\<lparr>bn2 := l\<rparr>) (\<lambda>l. BatchNorm2d_forward l x))
        (\<lambda>y. shape y = [n, 64, w1, h1])" if "shape x = [n, 64, w1, h1]" for x
    unfolding BatchNorm2d_forward_def
    using bn [of x 64 "[w1, h1]" bn2 "\<lambda>l self. self\<lparr>bn2 := l\<rparr>" "[4]"] that p1 by simp
  have bn3: "succeeds I (on_layer bn3 (\<lambda>l self. self\<lparr>bn3 := l\<rparr>) (\<lambda>l. BatchNorm2d_forward l x))
        (\<lambda>y. shape y = [n, 128, w2, h2])" if "shape x = [n, 128, w2, h2]" for x
    unfolding BatchNorm2d_forward_def
    using bn [of x 128 "[w2, h2]" bn3 "\<lambda>l self. self\<lparr>bn3 := l\<rparr>" "[4]"] that p1 by simp
  have bn4: "succeeds I (on_layer bn1_fc (\<lambda>l self. self\<lparr>bn1_fc := l\<rparr>) (\<lambda>l. BatchNorm1d_forward l x))
        (\<lambda>y. shape y = [n, 3072])" if "shape x = [n, 3072]" for x
    unfolding BatchNorm1d_forward_def
    using bn [of x 3072 "[]" bn1_fc "\<lambda>l self. self\<lparr>bn1_fc := l\<rparr>" "[2, 3]"] that by simp
  have bn5: "succeeds I (on_layer bn2_fc (\<lambda>l self. self\<lparr>bn2_fc := l\<rparr>) (\<lambda>l. BatchNorm1d_forward l x))
        (\<lambda>y. shape y = [n, 2048])" if "shape x = [n, 2048]" for x
    unfolding BatchNorm1d_forward_def
    using bn [of x 2048 "[]" bn2_fc "\<lambda>l self. self\<lparr>bn2_fc := l\<rparr>" "[2, 3]"] that by simp
  have c1: "succeeds I (reads (\<lambda>self. Conv2d_forward (ConvEncoder.conv1 self) h)) (\<lambda>y. shape y = [n, 64, w, hh])"
    by (rule ConvEncoder_reads_succeeds [OF I]) (rule Conv2d_forward_same [OF D(2) h pos(2,3)])
  have c2: "succeeds I (reads (\<lambda>self. Conv2d_forward (ConvEncoder.conv2 self) x)) (\<lambda>y. shape y = [n, 64, w1, h1])"
    if "shape x = [n, 64, w1, h1]" for x
    by (rule ConvEncoder_reads_succeeds [OF I]) (rule Conv2d_forward_same [OF D(3) that p1(1,2)])
  have c3: "succeeds I (reads (\<lambda>self. Conv2d_forward (ConvEncoder.conv3 self) x)) (\<lambda>y. shape y = [n, 128, w2, h2])"
    if "shape x = [n, 64, w2, h2]" for x
    by (rule ConvEncoder_reads_succeeds [OF I]) (rule Conv2d_forward_same [OF D(4) that p1(3,4)])
  have pl1: "succeeds I (lift (max_pool2d (LeakyReLU x) 3 2 1)) (\<lambda>y. shape y = [n, 64, w1, h1])"
    if "shape x = [n, 64, w, hh]" for x
  proof -
    from max_pool2d_4d [of "LeakyReLU x" n 64 w hh] that pos
    obtain y where "max_pool2d (LeakyReLU x) 3 2 1 = Inr y" "shape y = [n, 64, w1, h1]"
      by (auto simp: w1_def h1_def)
    then show ?thesis by (rule succeeds_lift)
  qed
  have pl2: "succeeds I (lift (max_pool2d (LeakyReLU x) 3 2 1)) (\<lambda>y. shape y = [n, 64, w2, h2])"
    if "shape x = [n, 64, w1, h1]" for x
  proof -
    from max_pool2d_4d [of "LeakyReLU x" n 64 w1 h1] that p1
    obtain y where "max_pool2d (LeakyReLU x) 3 2 1 = Inr y" "shape y = [n, 64, w2, h2]"
      by (auto simp: w2_def h2_def)
    then show ?thesis by (rule succeeds_lift)
  qed
  have vw: "succeeds I (lift (view (LeakyReLU x) [int n, - 1])) (\<lambda>y. shape y = [n, 8192])"
    if "shape x = [n, 128, w2, h2]" for x
  proof -
    from that pos flat' have "view (LeakyReLU x) [int n, - 1] = Inr (Tensor [n, 8192] (data (LeakyReLU x)))"
      by (simp add: view_flatten mult.assoc)
    then show ?thesis by (rule succeeds_lift) simp
  qed
  have f1: "succeeds I (reads (\<lambda>self. Linear_forward (fc1 self) x)) (\<lambda>y. shape y = [n, 3072])"
    if "shape x = [n, 8192]" for x
    by (rule ConvEncoder_reads_succeeds [OF I])
       (use that in \<open>auto simp: Linear_forward_2d Linear_hyper_def dest!: D(10)\<close>)
  have f2: "succeeds I (reads (\<lambda>self. Linear_forward (fc2 self) (LeakyReLU x))) (\<lambda>y. shape y = [n, 2048])"
    if "shape x = [n, 3072]" for x
    by (rule ConvEncoder_reads_succeeds [OF I])
       (use that in \<open>auto simp: Linear_forward_2d Linear_hyper_def dest!: D(11)\<close>)
  have f3: "succeeds I (reads (\<lambda>self. Linear_forward (ConvEncoder.mu_logvar_gen self) (LeakyReLU x)))
        (\<lambda>y. shape y = [n, L * 2])" if "shape x = [n, 2048]" for x
    by (rule ConvEncoder_reads_succeeds [OF I])
       (use that in \<open>auto simp: Linear_forward_2d Linear_hyper_def dest!: D(12)\<close>)
  show ?thesis
    unfolding ConvEncoder_hidden_def Let_def
    by (intro succeeds_and_then [OF c1] succeeds_and_then [OF bn1] succeeds_and_then [OF pl1]
        succeeds_and_then [OF c2] succeeds_and_then [OF bn2] succeeds_and_then [OF pl2]
        succeeds_and_then [OF c3] succeeds_and_then [OF bn3] succeeds_and_then [OF vw]
        succeeds_and_then [OF f1] succeeds_and_then [OF bn4] succeeds_and_then [OF f2]
        succeeds_and_then [OF bn5] f3)
qed


lemma tensor_eq_iff: "t = Tensor s d \<longleftrightarrow> shape t = s \<and> data t = d"
  by (cases t) auto

lemma view_batch:
  assumes "shape x = [n, c, w, h]"
  shows "view x [- 1, int c, int w, int h] =
           (if c * w * h = 0 then Inl RuntimeError else Inr x)"
  using assms
  by (cases x) (auto simp: view_def infer_size_def numel_def mult.assoc)

lemma ConvEncoder_split_pairs:
  assumes "shape ml = [n, ConvEncoder.latent_dim s * 2]"
  shows "ConvEncoder_split n ml s =
     (Inr [Tensor [n, ConvEncoder.latent_dim s] (map (\<lambda>i. data ml ! (i * 2)) [0..<n * ConvEncoder.latent_dim s]),
           Tensor [n, ConvEncoder.latent_dim s] (map (\<lambda>i. data ml ! (i * 2 + 1)) [0..<n * ConvEncoder.latent_dim s])], s)"
  using assms by (simp add: ConvEncoder_split_def view_pairs_explicit unbind_last_pairs)

lemma ConvEncoder_forward_shape:
  assumes arch: "ConvEncoder_hyper self = ConvEncoder_hyper (ConvEncoder_init init L)"
    and x: "shape inputs = [n, 3, w, hh]" and pos: "0 < n" "0 < w" "0 < hh"
    and flat: "128 * conv_out_size (conv_out_size w 3 2 1) 3 2 1
                   * conv_out_size (conv_out_size hh 3 2 1) 3 2 1 = 8192"
    and valid: "True \<in> set (ConvEncoder_training self) \<Longrightarrow> 2 \<le> n"
  shows "\<exists>mu logvar s'. ConvEncoder_forward self inputs = (Inr [mu, logvar], s')
           \<and> shape mu = [n, L] \<and> shape logvar = [n, L]"
proof -
  define I where "I = (\<lambda>s. ConvEncoder_hyper s = ConvEncoder_hyper (ConvEncoder_init init L)
                    \<and> ConvEncoder_training s = ConvEncoder_training self)"
  from ConvEncoder_hidden_succeeds [OF x pos flat valid I_def] arch
  obtain ml s' where ml: "ConvEncoder_hidden n inputs self = (Inr ml, s')" "I s'" "shape ml = [n, L * 2]"
    by (auto simp: succeeds_def I_def)
  from ml(2) have L: "ConvEncoder.latent_dim s' = L"
    by (simp add: I_def ConvEncoder_hyperD(1))
  from x pos have v: "view inputs [- 1, 3, int w, int hh] = Inr inputs"
    using view_batch [of inputs n 3 w hh] by simp
  from ml(3) L have "shape ml = [n, ConvEncoder.latent_dim s' * 2]" by simp
  note sp = ConvEncoder_split_pairs [OF this]
  have "and_then (ConvEncoder_hidden n inputs) (ConvEncoder_split n) self = ConvEncoder_split n ml s'"
    using ml(1) by (rule and_then_Inr)
  then show ?thesis
    by (simp add: ConvEncoder_forward_def x v sp L)
qed

section \<open>DomainEncoder: shapes\<close>

lemma Embedding_forward_eq_Inr_iff:
  "Embedding_forward m x = Inr y \<longleftrightarrow>
     (\<forall>i\<in>set (data x). 0 \<le> i \<and> i < int (num_embeddings m))
     \<and> y = Tensor (shape x @ [embedding_dim m])
             (concat (map (\<lambda>i. map (\<lambda>k. data (Embedding.weight m) ! (nat i * embedding_dim m + k))
                                     [0..<embedding_dim m]) (data x)))"
  by (auto simp: Embedding_forward_def list_ex_iff not_less not_le)


lemma DomainEncoder_hyperD:
  assumes "DomainEncoder_hyper self = DomainEncoder_hyper (DomainEncoder_init init k L)"
  shows "DomainEncoder.latent_dim self = L" "num_embeddings (embed self) = k"
    "embedding_dim (embed self) = 512" "num_features (bn self) = 512"
    "Linear_hyper (DomainEncoder.mu_logvar_gen self) = (512, L * 2)"
  using assms
  by (simp_all add: DomainEncoder_hyper_def DomainEncoder_init_def Embedding_hyper_def Embedding_init_def)


lemma DomainEncoder_hidden_apply:
  "DomainEncoder_hidden inputs self =
     (case Embedding_forward (embed self) inputs of
        Inl e \<Rightarrow> (Inl e, self)
      | Inr h \<Rightarrow>
          (case batch_norm [2, 3] (bn self) h of
             (Inl e, b) \<Rightarrow> (Inl e, self\<lparr>bn := b\<rparr>)
           | (Inr h', b) \<Rightarrow>
               (Linear_forward (DomainEncoder.mu_logvar_gen self) (LeakyReLU h'), self\<lparr>bn := b\<rparr>)))"
  by (simp add: DomainEncoder_hidden_def and_then_def on_layer_def BatchNorm1d_forward_def Let_def
           split: sum.splits prod.splits)

lemma DomainEncoder_forward_apply:
  "DomainEncoder_forward self inputs =
     (case size0 inputs of
        Inl e \<Rightarrow> (Inl e, self)
      | Inr batch_size \<Rightarrow>
          (case DomainEncoder_hidden inputs self of
             (Inl e, s) \<Rightarrow> (Inl e, s)
           | (Inr mu_logvar, s) \<Rightarrow>
               (thn (view mu_logvar [int batch_size, int (DomainEncoder.latent_dim s), 2]) unbind_last, s)))"
  by (simp add: DomainEncoder_forward_def and_then_def split: sum.splits prod.splits)

lemma DomainEncoder_forward_shape:
  assumes arch: "DomainEncoder_hyper self = DomainEncoder_hyper (DomainEncoder_init init k L)"
    and x: "shape inputs = [n]" and n: "0 < n"
    and range: "\<forall>i\<in>set (data inputs). 0 \<le> i \<and> i < int k"
    and valid: "training (bn self) \<Longrightarrow> 2 \<le> n"
  shows "\<exists>mu logvar s'. DomainEncoder_forward self inputs = (Inr [mu, logvar], s')
           \<and> shape mu = [n, L] \<and> shape logvar = [n, L]"
proof -
  note D = DomainEncoder_hyperD [OF arch]
  from range D(2) obtain h where h: "Embedding_forward (embed self) inputs = Inr h"
    and sh: "shape h = [n, 512]"
    by (auto simp: Embedding_forward_eq_Inr_iff x D(3))
  have "\<exists>y. fst (batch_norm [2, 3] (bn self) h) = Inr y \<and> shape y = shape h"
    by (rule batch_norm_ok) (use sh n valid D(4) in \<open>auto simp: numel_def\<close>)
  then obtain h' b where b: "batch_norm [2, 3] (bn self) h = (Inr h', b)" and sh': "shape h' = [n, 512]"
    using sh by (cases "batch_norm [2, 3] (bn self) h") auto
  from D(5) sh' have lin: "Linear_forward (DomainEncoder.mu_logvar_gen self) (LeakyReLU h') =
      Inr (Tensor [n, L * 2] (per_sample n 512 (linear_row (DomainEncoder.mu_logvar_gen self)) (data (LeakyReLU h'))))"
    by (simp add: Linear_forward_2d Linear_hyper_def)
  show ?thesis
    by (simp add: DomainEncoder_forward_apply DomainEncoder_hidden_apply size0_Cons [OF x] h b lin D(1)
        view_pairs_explicit unbind_last_pairs)
qed


section \<open>Claim C1: the shapes of the outputs\<close>




section \<open>Exceptions of the steps\<close>

lemma raises_only_and_then:
  assumes "raises_only E m" "\<And>v. raises_only E (f v)"
  shows "raises_only E (and_then m f)"
  unfolding raises_only_def
proof (intro allI impI)
  fix s e assume a: "fst (and_then m f s) = Inl e"
  obtain r s' where ms: "m s = (r, s')" by (cases "m s")
  show "E e"
  proof (cases r)
    case (Inl e')
    with ms a assms(1) show ?thesis
      by (auto simp: and_then_def raises_only_def dest: spec [of _ s])
  next
    case (Inr v)
    with ms a have "fst (f v s') = Inl e" by (simp add: and_then_def)
    with assms(2) show ?thesis by (auto simp: raises_only_def)
  qed
qed

lemma raises_only_reads: "(\<And>s e. f s = Inl e \<Longrightarrow> E e) \<Longrightarrow> raises_only E (reads f)"
  by (simp add: raises_only_def)

lemma raises_only_lift: "(\<And>e. r = Inl e \<Longrightarrow> E e) \<Longrightarrow> raises_only E (lift r)"
  by (simp add: raises_only_def)

lemma raises_only_on_layer:
  "(\<And>l e. fst (step l) = Inl e \<Longrightarrow> E e) \<Longrightarrow> raises_only E (on_layer get put step)"
  by (simp add: raises_only_def on_layer_apply)

lemma unbind_last_error: "unbind_last t = Inl e \<Longrightarrow> e = IndexError"
  by (auto simp: unbind_last_def Let_def split: list.splits)

lemma unbind_last_3d: "shape t = [a, b, c] \<Longrightarrow> \<exists>ts. unbind_last t = Inr ts"
  by (simp add: unbind_last_def Let_def)

lemma view_3_shape: "view t [a, b, c] = Inr v \<Longrightarrow> length (shape v) = 3"
  by (auto simp: view_def infer_size_def Let_def split: sum.splits if_splits)

lemma view_unbind_error:
  "thn (view t [a, b, c]) unbind_last = Inl e \<Longrightarrow> e = RuntimeError"
proof -
  assume a: "thn (view t [a, b, c]) unbind_last = Inl e"
  show ?thesis
  proof (cases "view t [a, b, c]")
    case (Inl e')
    with a view_error [of t "[a, b, c]"] show ?thesis by simp
  next
    case (Inr v)
    from view_3_shape [OF Inr] have "shape v \<noteq> []" by auto
    then have "\<exists>ts. unbind_last v = Inr ts"
      by (cases "shape v") (simp_all add: unbind_last_def Let_def)
    with Inr a show ?thesis by auto
  qed
qed


lemma raises_conv:
  "raises_only (\<lambda>e. e = RuntimeError \<or> e = ValueError) (reads (\<lambda>self. Conv2d_forward (g self) h))"
  by (rule raises_only_reads) (simp add: Conv2d_forward_error)

lemma raises_linear:
  "raises_only (\<lambda>e. e = RuntimeError \<or> e = ValueError) (reads (\<lambda>self. Linear_forward (g self) h))"
  by (rule raises_only_reads) (simp add: Linear_forward_error)

lemma raises_pool:
  "raises_only (\<lambda>e. e = RuntimeError \<or> e = ValueError) (lift (max_pool2d h k s p))"
  by (rule raises_only_lift) (simp add: max_pool2d_error)

lemma raises_view:
  "raises_only (\<lambda>e. e = RuntimeError \<or> e = ValueError) (lift (view h sizes))"
  by (rule raises_only_lift) (simp add: view_error)

lemma raises_bn:
  "raises_only (\<lambda>e. e = RuntimeError \<or> e = ValueError) (on_layer g p (\<lambda>l. batch_norm dims l h))"
  by (rule raises_only_on_layer) (use batch_norm_error in blast)

lemma ConvEncoder_hidden_raises:
  "raises_only (\<lambda>e. e = RuntimeError \<or> e = ValueError) (ConvEncoder_hidden n h)"
  unfolding ConvEncoder_hidden_def Let_def BatchNorm1d_forward_def BatchNorm2d_forward_def
  by (intro raises_only_and_then raises_conv raises_linear raises_pool raises_view raises_bn)

lemma ConvEncoder_split_raises:
  "raises_only (\<lambda>e. e = RuntimeError \<or> e = ValueError) (ConvEncoder_split n ml)"
  unfolding ConvEncoder_split_def
  by (rule raises_only_reads) (simp add: view_unbind_error)

lemma ConvEncoder_forward_raises:
  assumes "shape inputs = [n, c, w, h]"
  shows "fst (ConvEncoder_forward self inputs) = Inl e \<Longrightarrow> e = RuntimeError \<or> e = ValueError"
proof -
  have "raises_only (\<lambda>e. e = RuntimeError \<or> e = ValueError)
          (and_then (lift (view inputs [- 1, int c, int w, int h])) (\<lambda>h.
           and_then (ConvEncoder_hidden n h) (\<lambda>mu_logvar. ConvEncoder_split n mu_logvar)))"
    by (intro raises_only_and_then raises_view ConvEncoder_hidden_raises ConvEncoder_split_raises)
  then show "fst (ConvEncoder_forward self inputs) = Inl e \<Longrightarrow> e = RuntimeError \<or> e = ValueError"
    by (simp add: ConvEncoder_forward_def assms raises_only_def)
qed

lemma length_4_shape: "length xs = 4 \<longleftrightarrow> (\<exists>a b c d. xs = [a, b, c, d])"
  by (auto simp: length_Suc_conv numeral_eq_Suc)

section \<open>Claim C5: the check of ConvEncoder's input\<close>

text \<open>
  Claim C5. On an input whose number of dimensions is not 4, \<^verbatim>\<open>ConvEncoder.forward\<close> fails at
  the assertion of line 114, before any layer has run: the exception is \<^verbatim>\<open>AssertionError\<close> and
  the module is as it was. On a 4-dimensional input the assertion passes: whatever the
  forward pass raises later, it is not \<^verbatim>\<open>AssertionError\<close>.
\<close>

theorem ConvEncoder_forward_assertion:
  "(length (shape inputs) \<noteq> 4 \<longrightarrow> ConvEncoder_forward self inputs = (Inl AssertionError, self))
   \<and> (length (shape inputs) = 4 \<longrightarrow> fst (ConvEncoder_forward self inputs) \<noteq> Inl AssertionError)"
proof (intro conjI impI)
  assume "length (shape inputs) \<noteq> 4"
  then show "ConvEncoder_forward self inputs = (Inl AssertionError, self)"
    by (auto simp: ConvEncoder_forward_def split: list.splits)
next
  assume "length (shape inputs) = 4"
  then obtain n c w h where "shape inputs = [n, c, w, h]"
    by (auto simp: length_4_shape)
  from ConvEncoder_forward_raises [OF this, of self AssertionError]
  show "fst (ConvEncoder_forward self inputs) \<noteq> Inl AssertionError"
    by auto
qed

theorem ConvEncoder_forward_assertion_witness:
  "ConvEncoder_forward (ConvEncoder_init (\<lambda>_ _. 0) 10) (Tensor [3, 32, 32] (replicate 3072 0))
     = (Inl AssertionError, ConvEncoder_init (\<lambda>_ _. 0) 10)
   \<and> fst (ConvEncoder_forward (ConvEncoder_init (\<lambda>_ _. 0) 10) (Tensor [2, 3, 32, 32] (replicate 6144 0)))
     \<noteq> Inl AssertionError"
  using ConvEncoder_forward_assertion [of "Tensor [3, 32, 32] (replicate 3072 0)" "ConvEncoder_init (\<lambda>_ _. 0) 10"]
    ConvEncoder_forward_assertion [of "Tensor [2, 3, 32, 32] (replicate 6144 0)" "ConvEncoder_init (\<lambda>_ _. 0) 10"]
  by simp


section \<open>Claim C10: the reshape of line 116\<close>

lemma ConvEncoder_hidden_conv1_fails:
  assumes "Conv2d_forward (ConvEncoder.conv1 self) h = Inl e"
  shows "ConvEncoder_hidden n h self = (Inl e, self)"
  using assms by (simp add: ConvEncoder_hidden_def and_then_def)

lemma Conv2d_forward_empty:
  assumes "Conv2d_hyper m = (3, 64, 5, 1, 2)" "shape x = [n, c, w, h]" "c * w * h = 0"
  shows "Conv2d_forward m x = Inl RuntimeError"
  using assms by (auto simp: Conv2d_forward_def Conv2d_hyper_def)

text \<open>
  The claim as it is written fails on an input without elements per sample: there the
  reshape raises instead of returning its input.
\<close>

theorem view_not_identity_counterexample:
  "view (Tensor [1, 3, 0, 5] ([] :: real list)) [- 1, 3, 0, 5] = Inl RuntimeError
   \<and> wf_tensor (Tensor [1, 3, 0, 5] ([] :: real list))"
  by (simp add: view_def infer_size_def wf_tensor_def)

text \<open>
  Claim C10, amended. On a 4-dimensional input with at least one element per sample the
  reshape of line 116 returns the input itself. On every 4-dimensional input the forward
  pass has the outcome, result and module, of the same pipeline without the reshape; on
  an input without elements per sample both raise \<^verbatim>\<open>RuntimeError\<close>, the reshape in the one and
  the first convolution in the other.
\<close>

theorem ConvEncoder_reshape_identity:
  assumes "ConvEncoder_hyper self = ConvEncoder_hyper (ConvEncoder_init init L)"
    and "shape inputs = [n, c, w, h]"
  shows "(if c * w * h = 0
          then view inputs [- 1, int c, int w, int h] = Inl RuntimeError
             \<and> ConvEncoder_forward_without_reshape self inputs = (Inl RuntimeError, self)
          else view inputs [- 1, int c, int w, int h] = Inr inputs)
         \<and> ConvEncoder_forward self inputs = ConvEncoder_forward_without_reshape self inputs"
proof (cases "c * w * h = 0")
  case True
  from Conv2d_forward_empty [OF ConvEncoder_hyperD(2) [OF assms(1)] assms(2) True]
  have "ConvEncoder_hidden n inputs self = (Inl RuntimeError, self)"
    by (rule ConvEncoder_hidden_conv1_fails)
  then have "ConvEncoder_forward_without_reshape self inputs = (Inl RuntimeError, self)"
    by (simp add: ConvEncoder_forward_without_reshape_def assms(2) and_then_def)
  with True show ?thesis
    by (simp add: ConvEncoder_forward_def assms(2) view_batch [OF assms(2)])
next
  case False
  then show ?thesis
    by (simp add: ConvEncoder_forward_def ConvEncoder_forward_without_reshape_def assms(2)
        view_batch [OF assms(2)])
qed

theorem ConvEncoder_reshape_identity_witness:
  "view (Tensor [2, 3, 32, 32] (replicate 6144 0)) [- 1, 3, 32, 32]
     = Inr (Tensor [2, 3, 32, 32] (replicate 6144 (0::real)))
   \<and> ConvEncoder_forward (ConvEncoder_init (\<lambda>_ _. 0) 10) (Tensor [2, 3, 32, 32] (replicate 6144 0))
     = ConvEncoder_forward_without_reshape (ConvEncoder_init (\<lambda>_ _. 0) 10)
         (Tensor [2, 3, 32, 32] (replicate 6144 0))"
  using ConvEncoder_reshape_identity [of "ConvEncoder_init (\<lambda>_ _. 0) 10" "\<lambda>_ _. 0" 10
      "Tensor [2, 3, 32, 32] (replicate 6144 0)" 2 3 32 32]
  by simp


section \<open>Claim C9: the width of lin1\<close>

lemma view_flat_shape:
  "view y [int n, - 1] = Inr f \<Longrightarrow> \<exists>k. shape f = [n, k] \<and> data f = data y"
  by (auto simp: view_def infer_size_def Let_def split: sum.splits if_splits)

lemma EncoderBurgess_forward_stages:
  assumes "EncoderBurgess_forward self x = Inr r"
  shows "\<exists>n y f h. size0 x = Inr n \<and> EncoderBurgess_convs self x = Inr y
           \<and> view y [int n, - 1] = Inr f \<and> Linear_forward (lin1 self) f = Inr h"
  using assms
  by (auto simp: EncoderBurgess_forward_def EncoderBurgess_mu_logvar_def thn_eq_Inr_iff Let_def)

lemma EncoderBurgess_lin1_fails:
  assumes "size0 x = Inr n" "EncoderBurgess_convs self x = Inr y" "view y [int n, - 1] = Inr f"
    and "Linear_forward (lin1 self) f = Inl e"
  shows "EncoderBurgess_forward self x = Inl e"
  using assms by (simp add: EncoderBurgess_forward_def EncoderBurgess_mu_logvar_def)

text \<open>
  Claim C9. The first fully-connected layer of \<^verbatim>\<open>EncoderBurgess\<close> takes 512 values per sample,
  the product of the fixed shape \<open>(32, 4, 4)\<close>, whatever the declared \<^verbatim>\<open>img_size\<close>. So a forward
  pass that succeeds has flattened the output of the convolutions to 512 values per sample,
  and when the flattened output has another width, \<^verbatim>\<open>lin1\<close> raises the shape error
  (\<^verbatim>\<open>RuntimeError\<close>) that the forward pass ends with.
\<close>

theorem EncoderBurgess_needs_512_features:
  assumes "EncoderBurgess_init init isz L = Inr e"
    and "EncoderBurgess_hyper self = EncoderBurgess_hyper e"
  shows "in_features (lin1 self) = prod_list [32, 4, 4] \<and> in_features (lin1 self) = 512
     \<and> (\<forall>r. EncoderBurgess_forward self x = Inr r \<longrightarrow>
           (\<exists>n y f. size0 x = Inr n \<and> EncoderBurgess_convs self x = Inr y
              \<and> view y [int n, - 1] = Inr f \<and> shape f = [n, 512]))
     \<and> (\<forall>n y f. size0 x = Inr n \<longrightarrow> EncoderBurgess_convs self x = Inr y \<longrightarrow>
           view y [int n, - 1] = Inr f \<longrightarrow> last (shape f) \<noteq> 512 \<longrightarrow>
           Linear_forward (lin1 self) f = Inl RuntimeError
           \<and> EncoderBurgess_forward self x = Inl RuntimeError)"
proof -
  from EncoderBurgess_hyperD(8) [OF assms] have w: "in_features (lin1 self) = 512"
    by (simp add: Linear_hyper_def)
  have ok: "\<exists>n y f. size0 x = Inr n \<and> EncoderBurgess_convs self x = Inr y
              \<and> view y [int n, - 1] = Inr f \<and> shape f = [n, 512]"
    if "EncoderBurgess_forward self x = Inr r" for r
  proof -
    from EncoderBurgess_forward_stages [OF that]
    obtain n y f h where s: "size0 x = Inr n" "EncoderBurgess_convs self x = Inr y"
      "view y [int n, - 1] = Inr f" "Linear_forward (lin1 self) f = Inr h"
      by blast
    from view_flat_shape [OF s(3)] obtain k where k: "shape f = [n, k]" by auto
    with s(4) w have "k = 512"
      by (simp add: Linear_forward_2d split: if_splits)
    with s k show ?thesis by auto
  qed
  have bad: "Linear_forward (lin1 self) f = Inl RuntimeError
           \<and> EncoderBurgess_forward self x = Inl RuntimeError"
    if s: "size0 x = Inr n" "EncoderBurgess_convs self x = Inr y" "view y [int n, - 1] = Inr f"
      and ne: "last (shape f) \<noteq> 512" for n y f
  proof -
    from view_flat_shape [OF s(3)] obtain k where k: "shape f = [n, k]" by auto
    with ne w have "Linear_forward (lin1 self) f = Inl RuntimeError"
      by (simp add: Linear_forward_2d)
    with EncoderBurgess_lin1_fails [OF s this] show ?thesis by simp
  qed
  from w ok bad show ?thesis by simp
qed


theorem EncoderBurgess_needs_512_features_witness:
  "\<exists>e. EncoderBurgess_init (\<lambda>_ _. 0) [3, 32, 32] 10 = Inr e
      \<and> in_features (lin1 e) = 512
      \<and> (\<exists>n y f. size0 (Tensor [2, 3, 32, 32] (replicate 6144 (0::real))) = Inr n
            \<and> EncoderBurgess_convs e (Tensor [2, 3, 32, 32] (replicate 6144 0)) = Inr y
            \<and> view y [int n, - 1] = Inr f \<and> shape f = [n, 512])
      \<and> EncoderBurgess_forward e (Tensor [2, 3, 64, 64] (replicate 24576 0)) = Inl RuntimeError"
proof -
  obtain e where e: "EncoderBurgess_init (\<lambda>_ _. 0) [3, 32, 32] 10 = Inr e"
    by (simp add: EncoderBurgess_init_eq_Inr_iff)
  define x32 where "x32 = Tensor [2, 3, 32, 32] (replicate 6144 (0::real))"
  define x64 where "x64 = Tensor [2, 3, 64, 64] (replicate 24576 (0::real))"
  note T32 = EncoderBurgess_needs_512_features [OF e refl, of x32]
  note T64 = EncoderBurgess_needs_512_features [OF e refl, of x64]
  from EncoderBurgess_forward_shape [OF e refl, of x32 2 32 32 8]
  obtain r where r: "EncoderBurgess_forward e x32 = Inr r"
    by (auto simp: x32_def)
  from EncoderBurgess_convs_shape [OF e refl, of x64 2 64 64 8]
  obtain y where y: "EncoderBurgess_convs e x64 = Inr y" "shape y = [2, 32, 8, 8]"
    by (auto simp: x64_def)
  have v: "view y [int 2, - 1] = Inr (Tensor [2, 2048] (data y))"
    using view_flatten [OF y(2)] by simp
  have s: "size0 x64 = Inr 2" by (simp add: x64_def size0_def)
  from T64 s y(1) v have "EncoderBurgess_forward e x64 = Inl RuntimeError"
    by simp
  with T32 r e show ?thesis
    unfolding x32_def x64_def by blast
qed


section \<open>Claim C4: three or four convolutions\<close>

lemma Conv2d_num_params_init [simp]:
  "Conv2d_num_params (Conv2d_init init name cin cout k s p) = cout * cin * k * k + cout"
  by (simp add: Conv2d_num_params_def Conv2d_init_def param_def mult.assoc)

lemma Linear_num_params_init [simp]:
  "Linear_num_params (Linear_init init name a b) = b * a + b"
  by (simp add: Linear_num_params_def Linear_init_def param_def)

lemma EncoderBurgess_conv_layers_arch:
  assumes "EncoderBurgess_init init isz L = Inr e" "EncoderBurgess_hyper self = EncoderBurgess_hyper e"
  shows "length (EncoderBurgess_conv_layers self) = (if isz ! 1 = isz ! 2 \<and> isz ! 2 = 64 then 4 else 3)"
    and "list_all (\<lambda>c. kernel_size c = 4 \<and> stride c = 2 \<and> padding c = 1) (EncoderBurgess_conv_layers self)"
proof -
  note H = EncoderBurgess_hyperD [OF assms]
  show "length (EncoderBurgess_conv_layers self) = (if isz ! 1 = isz ! 2 \<and> isz ! 2 = 64 then 4 else 3)"
    using H(7) by (auto simp: EncoderBurgess_conv_layers_def split: option.splits if_splits)
  show "list_all (\<lambda>c. kernel_size c = 4 \<and> stride c = 2 \<and> padding c = 1) (EncoderBurgess_conv_layers self)"
    using H(4-7)
    by (auto simp: EncoderBurgess_conv_layers_def Conv2d_hyper_def split: option.splits if_splits)
qed

lemma EncoderBurgess_convs_fold:
  assumes "EncoderBurgess_init init isz L = Inr e" "EncoderBurgess_hyper self = EncoderBurgess_hyper e"
  shows "EncoderBurgess_convs self x =
           fold (\<lambda>c r. thn r (\<lambda>x. thn (Conv2d_forward c x) (\<lambda>y. Inr (relu y))))
             (EncoderBurgess_conv_layers self) (Inr x)"
proof -
  note H = EncoderBurgess_hyperD [OF assms]
  have tg: "tuple_get (img_size self) 1 = Inr (isz ! 1)" "tuple_get (img_size self) 2 = Inr (isz ! 2)"
    using H(1,2) by (simp_all add: tuple_get_def)
  show ?thesis
  proof (cases "isz ! 1 = isz ! 2 \<and> isz ! 2 = 64")
    case True
    with H(7) obtain c4 where "conv_64 self = Some c4" by auto
    with True tg show ?thesis
      by (simp add: EncoderBurgess_convs_def EncoderBurgess_conv_layers_def Let_def thn_def
               split: sum.splits)
  next
    case False
    with H(7) have "conv_64 self = None" by auto
    with False tg show ?thesis
      by (auto simp: EncoderBurgess_convs_def EncoderBurgess_conv_layers_def Let_def thn_def
               split: sum.splits)
  qed
qed

lemma EncoderBurgess_num_params_init:
  assumes "EncoderBurgess_init init isz L = Inr e"
  shows "EncoderBurgess_num_params e =
     (32 * (isz ! 0) * 4 * 4 + 32) + 2 * 16416
     + (if isz ! 1 = isz ! 2 \<and> isz ! 2 = 64 then 16416 else 0)
     + (256 * 512 + 256) + (256 * 256 + 256) + (L * 2 * 256 + L * 2)"
  using assms
  by (auto simp: EncoderBurgess_init_eq_Inr_iff EncoderBurgess_num_params_def
      EncoderBurgess_conv_layers_def)


text \<open>
  Claim C4. An \<^verbatim>\<open>EncoderBurgess\<close> has three convolutions, each of kernel 4, stride 2 and
  padding 1, and a fourth exactly when the declared height and width are both 64; its
  forward pass applies the convolutions it has, in order, each followed by ReLU. So an
  instance declared for \<open>64 \<times> 64\<close> images has one convolution more than one declared for
  \<open>32 \<times> 32\<close> images, and the 16416 parameters of that convolution more.
\<close>

theorem EncoderBurgess_three_or_four_convolutions:
  assumes "EncoderBurgess_init init isz L = Inr e"
    and "EncoderBurgess_hyper self = EncoderBurgess_hyper e"
    and "EncoderBurgess_init init' [c, 64, 64] L' = Inr e64"
    and "EncoderBurgess_init init'' [c, 32, 32] L' = Inr e32"
  shows "length (EncoderBurgess_conv_layers self) = (if isz ! 1 = 64 \<and> isz ! 2 = 64 then 4 else 3)
     \<and> list_all (\<lambda>c. kernel_size c = 4 \<and> stride c = 2 \<and> padding c = 1)
          (EncoderBurgess_conv_layers self)
     \<and> EncoderBurgess_convs self x =
          fold (\<lambda>c r. thn r (\<lambda>x. thn (Conv2d_forward c x) (\<lambda>y. Inr (relu y))))
            (EncoderBurgess_conv_layers self) (Inr x)
     \<and> length (EncoderBurgess_conv_layers e64) = 4
     \<and> length (EncoderBurgess_conv_layers e32) = 3
     \<and> EncoderBurgess_num_params e64 = EncoderBurgess_num_params e32 + 16416"
proof -
  have 1: "length (EncoderBurgess_conv_layers self) = (if isz ! 1 = 64 \<and> isz ! 2 = 64 then 4 else 3)"
    using EncoderBurgess_conv_layers_arch(1) [OF assms(1,2)] by auto
  have 2: "length (EncoderBurgess_conv_layers e64) = 4"
    using EncoderBurgess_conv_layers_arch(1) [OF assms(3) refl] by simp
  have 3: "length (EncoderBurgess_conv_layers e32) = 3"
    using EncoderBurgess_conv_layers_arch(1) [OF assms(4) refl] by simp
  have 4: "EncoderBurgess_num_params e64 = EncoderBurgess_num_params e32 + 16416"
    by (simp add: EncoderBurgess_num_params_init [OF assms(3)] EncoderBurgess_num_params_init [OF assms(4)])
  from 1 2 3 4 EncoderBurgess_conv_layers_arch(2) [OF assms(1,2)]
    EncoderBurgess_convs_fold [OF assms(1,2), of x]
  show ?thesis by simp
qed

theorem EncoderBurgess_three_or_four_convolutions_witness:
  "\<exists>e64 e32. EncoderBurgess_init (\<lambda>_ _. 0) [3, 64, 64] 10 = Inr e64
      \<and> EncoderBurgess_init (\<lambda>_ _. 0) [3, 32, 32] 10 = Inr e32
      \<and> length (EncoderBurgess_conv_layers e64) = 4
      \<and> length (EncoderBurgess_conv_layers e32) = 3
      \<and> EncoderBurgess_num_params e64 = EncoderBurgess_num_params e32 + 16416
      \<and> EncoderBurgess_convs e32 (Tensor [2, 3, 32, 32] (replicate 6144 0)) =
          fold (\<lambda>c r. thn r (\<lambda>x. thn (Conv2d_forward c x) (\<lambda>y. Inr (relu y))))
            (EncoderBurgess_conv_layers e32) (Inr (Tensor [2, 3, 32, 32] (replicate 6144 0)))"
proof -
  obtain e64 where e64: "EncoderBurgess_init (\<lambda>_ _. 0) [3, 64, 64] 10 = Inr e64"
    by (simp add: EncoderBurgess_init_eq_Inr_iff)
  obtain e32 where e32: "EncoderBurgess_init (\<lambda>_ _. 0) [3, 32, 32] 10 = Inr e32"
    by (simp add: EncoderBurgess_init_eq_Inr_iff)
  from EncoderBurgess_three_or_four_convolutions [OF e32 refl e64 e32,
      of "Tensor [2, 3, 32, 32] (replicate 6144 0)"] e64 e32
  show ?thesis by blast
qed


section \<open>Claim C3: the interleaved split\<close>

lemma tget_2d: "shape t = [n, m] \<Longrightarrow> tget t [b, j] = data t ! (b * m + j)"
  by (simp add: tget_def)

lemma pair_index_less:
  fixes b j n l :: nat
  assumes "b < n" "j < l"
  shows "b * l + j < n * l"
proof -
  from assms have "b * l + j < b * l + l" by simp
  also have "\<dots> = Suc b * l" by simp
  also from assms(1) have "\<dots> \<le> n * l" by (intro mult_le_mono1) simp
  finally show ?thesis .
qed

lemma tget_map_upt:
  assumes "b < n" "j < l"
  shows "tget (Tensor [n, l] (map f [0..<n * l])) [b, j] = f (b * l + j)"
  using pair_index_less [OF assms] by (simp add: tget_def)

lemma split_pairs_elements:
  assumes ml: "shape ml = [n, l * 2]"
    and b: "b < n" and j: "j < l"
  shows "tget (Tensor [n, l] (map (\<lambda>i. data ml ! (i * 2)) [0..<n * l])) [b, j] = tget ml [b, 2 * j]"
    and "tget (Tensor [n, l] (map (\<lambda>i. data ml ! (i * 2 + 1)) [0..<n * l])) [b, j] = tget ml [b, 2 * j + 1]"
proof -
  have e: "(b * l + j) * 2 = b * (l * 2) + 2 * j" "(b * l + j) * 2 + 1 = b * (l * 2) + (2 * j + 1)"
    by (simp_all add: algebra_simps)
  have r: "tget ml [b, k] = data ml ! (b * (l * 2) + k)" for k
    by (simp add: tget_def ml)
  show "tget (Tensor [n, l] (map (\<lambda>i. data ml ! (i * 2)) [0..<n * l])) [b, j] = tget ml [b, 2 * j]"
    by (simp only: tget_map_upt [OF b j] e r)
  show "tget (Tensor [n, l] (map (\<lambda>i. data ml ! (i * 2 + 1)) [0..<n * l])) [b, j] = tget ml [b, 2 * j + 1]"
    by (simp only: tget_map_upt [OF b j] e r add.assoc)
qed

lemma EncoderBurgess_mu_logvar_2d:
  assumes init: "EncoderBurgess_init init isz L = Inr e"
    and arch: "EncoderBurgess_hyper self = EncoderBurgess_hyper e"
    and ml: "EncoderBurgess_mu_logvar self x = Inr ml"
  shows "\<exists>n. size0 x = Inr n \<and> shape ml = [n, L * 2]"
proof -
  note H = EncoderBurgess_hyperD [OF init arch]
  from ml obtain n y f h1 h2 where s: "size0 x = Inr n" "view y [int n, - 1] = Inr f"
    "Linear_forward (lin1 self) f = Inr h1" "Linear_forward (lin2 self) (relu h1) = Inr h2"
    "Linear_forward (EncoderBurgess.mu_logvar_gen self) (relu h2) = Inr ml"
    by (auto simp: EncoderBurgess_mu_logvar_def thn_eq_Inr_iff Let_def)
  from view_flat_shape [OF s(2)] obtain k where k: "shape f = [n, k]" by auto
  from s(3) k H(8) have 1: "shape h1 = [n, 256]"
    by (auto simp: Linear_forward_2d Linear_hyper_def split: if_splits)
  from s(4) 1 H(9) have 2: "shape h2 = [n, 256]"
    by (auto simp: Linear_forward_2d Linear_hyper_def split: if_splits)
  from s(5) 2 H(10) have "shape ml = [n, L * 2]"
    by (auto simp: Linear_forward_2d Linear_hyper_def split: if_splits)
  with s(1) show ?thesis by simp
qed

lemma EncoderBurgess_forward_split:
  assumes init: "EncoderBurgess_init init isz L = Inr e"
    and arch: "EncoderBurgess_hyper self = EncoderBurgess_hyper e"
    and r: "EncoderBurgess_forward self x = Inr (mu, logvar)"
  shows "\<exists>ml n. EncoderBurgess_mu_logvar self x = Inr ml \<and> shape ml = [n, L * 2]
           \<and> mu = Tensor [n, L] (map (\<lambda>i. data ml ! (i * 2)) [0..<n * L])
           \<and> logvar = Tensor [n, L] (map (\<lambda>i. data ml ! (i * 2 + 1)) [0..<n * L])"
proof -
  note H = EncoderBurgess_hyperD [OF init arch]
  from r obtain ml where ml: "EncoderBurgess_mu_logvar self x = Inr ml"
    by (auto simp: EncoderBurgess_forward_def thn_eq_Inr_iff)
  from EncoderBurgess_mu_logvar_2d [OF init arch ml] obtain n where n: "shape ml = [n, L * 2]"
    by auto
  from r ml n H(3) show ?thesis
    by (auto simp: EncoderBurgess_forward_def view_pairs unbind_last_pairs split: if_splits)
qed


section \<open>What a step that returns has done\<close>

lemma ensures_and_then:
  assumes "ensures I m P" and "\<And>v. P v \<Longrightarrow> ensures I (f v) Q"
  shows "ensures I (and_then m f) Q"
  unfolding ensures_def
proof (intro allI impI)
  fix s y t assume s: "I s" and r: "and_then m f s = (Inr y, t)"
  from r obtain v s' where 1: "m s = (Inr v, s')" and 2: "f v s' = (Inr y, t)"
    by (auto simp: and_then_eq_Inr_iff)
  from assms(1) s 1 have "I s'" "P v" by (auto simp: ensures_def)
  with assms(2) 2 show "I t \<and> Q y" by (auto simp: ensures_def)
qed

lemma ensures_reads:
  "(\<And>s v. I s \<Longrightarrow> f s = Inr v \<Longrightarrow> P v) \<Longrightarrow> ensures I (reads f) P"
  by (auto simp: ensures_def)

lemma ensures_lift: "(\<And>v. r = Inr v \<Longrightarrow> P v) \<Longrightarrow> ensures I (lift r) P"
  by (auto simp: ensures_def)

lemma ensures_on_layer:
  assumes "\<And>s v l. I s \<Longrightarrow> step (get s) = (Inr v, l) \<Longrightarrow> P v \<and> I (put l s)"
  shows "ensures I (on_layer get put step) P"
  unfolding ensures_def
proof (intro allI impI)
  fix s v s' assume s: "I s" and r: "on_layer get put step s = (Inr v, s')"
  obtain r' l where rl: "step (get s) = (r', l)" by (cases "step (get s)")
  with r have "r' = Inr v" "s' = put l s" by (simp_all add: on_layer_def)
  with assms [OF s, of v l] rl show "I s' \<and> P v" by simp
qed

lemma ensures_True_reads: "ensures I (reads f) (\<lambda>_. True)"
  by (simp add: ensures_def)

lemma ensures_True_lift: "ensures I (lift r) (\<lambda>_. True)"
  by (simp add: ensures_def)

text \<open>The architecture of a \<^verbatim>\<open>ConvEncoder\<close> survives the call of a batch-normalisation layer.\<close>

lemma ConvEncoder_hyper_put:
  fixes g :: "ConvEncoder \<Rightarrow> BatchNorm" and p :: "BatchNorm \<Rightarrow> ConvEncoder \<Rightarrow> ConvEncoder"
  assumes "num_features l = num_features (g s)"
    and "(g, p) \<in> {(bn1, \<lambda>l s. s\<lparr>bn1 := l\<rparr>), (bn2, \<lambda>l s. s\<lparr>bn2 := l\<rparr>), (bn3, \<lambda>l s. s\<lparr>bn3 := l\<rparr>),
                    (bn1_fc, \<lambda>l s. s\<lparr>bn1_fc := l\<rparr>), (bn2_fc, \<lambda>l s. s\<lparr>bn2_fc := l\<rparr>)}"
  shows "ConvEncoder_hyper (p l s) = ConvEncoder_hyper s"
  using assms by (auto simp: ConvEncoder_hyper_def)

lemma ConvEncoder_bn_ensures:
  fixes g :: "ConvEncoder \<Rightarrow> BatchNorm" and p :: "BatchNorm \<Rightarrow> ConvEncoder \<Rightarrow> ConvEncoder"
  assumes "(g, p) \<in> {(bn1, \<lambda>l s. s\<lparr>bn1 := l\<rparr>), (bn2, \<lambda>l s. s\<lparr>bn2 := l\<rparr>), (bn3, \<lambda>l s. s\<lparr>bn3 := l\<rparr>),
                    (bn1_fc, \<lambda>l s. s\<lparr>bn1_fc := l\<rparr>), (bn2_fc, \<lambda>l s. s\<lparr>bn2_fc := l\<rparr>)}"
  shows "ensures (\<lambda>s. ConvEncoder_hyper s = H) (on_layer g p (\<lambda>l. batch_norm dims l x))
           (\<lambda>y. shape y = shape x)"
proof (rule ensures_on_layer)
  fix s v l assume s: "ConvEncoder_hyper s = H" and r: "batch_norm dims (g s) x = (Inr v, l)"
  from batch_norm_frame(1) [OF r] have "num_features l = num_features (g s)" .
  from ConvEncoder_hyper_put [OF this assms] s batch_norm_shape [OF r]
  show "shape v = shape x \<and> ConvEncoder_hyper (p l s) = H" by simp
qed


lemma ensures_weaken: "ensures I m P \<Longrightarrow> (\<And>v. P v \<Longrightarrow> Q v) \<Longrightarrow> ensures I m Q"
  by (fastforce simp: ensures_def)

lemma ConvEncoder_hidden_ensures:
  "ensures (\<lambda>s. ConvEncoder_hyper s = ConvEncoder_hyper (ConvEncoder_init init L))
     (ConvEncoder_hidden n h) (\<lambda>ml. shape ml = [n, L * 2])"
proof -
  define I where "I = (\<lambda>s. ConvEncoder_hyper s = ConvEncoder_hyper (ConvEncoder_init init L))"
  note D = ConvEncoder_hyperD
  have conv: "ensures I (reads (\<lambda>self. Conv2d_forward (g self) x)) (\<lambda>_. True)" for g x
    by (rule ensures_True_reads)
  have pool: "ensures I (lift (max_pool2d x 3 2 1)) (\<lambda>_. True)" for x
    by (rule ensures_True_lift)
  have bn2d: "ensures I (on_layer g p (\<lambda>l. BatchNorm2d_forward l x)) (\<lambda>_. True)"
    if "(g, p) \<in> {(bn1, \<lambda>l s. s\<lparr>bn1 := l\<rparr>), (bn2, \<lambda>l s. s\<lparr>bn2 := l\<rparr>), (bn3, \<lambda>l s. s\<lparr>bn3 := l\<rparr>),
                    (bn1_fc, \<lambda>l s. s\<lparr>bn1_fc := l\<rparr>), (bn2_fc, \<lambda>l s. s\<lparr>bn2_fc := l\<rparr>)}"
    for g :: "ConvEncoder \<Rightarrow> BatchNorm" and p x
    unfolding BatchNorm2d_forward_def I_def
    by (rule ensures_weaken [OF ConvEncoder_bn_ensures [OF that]]) simp
  have bn1d: "ensures I (on_layer g p (\<lambda>l. BatchNorm1d_forward l x)) (\<lambda>y. shape y = s)"
    if "(g, p) \<in> {(bn1, \<lambda>l s. s\<lparr>bn1 := l\<rparr>), (bn2, \<lambda>l s. s\<lparr>bn2 := l\<rparr>), (bn3, \<lambda>l s. s\<lparr>bn3 := l\<rparr>),
                    (bn1_fc, \<lambda>l s. s\<lparr>bn1_fc := l\<rparr>), (bn2_fc, \<lambda>l s. s\<lparr>bn2_fc := l\<rparr>)}"
      and "shape x = s"
    for g :: "ConvEncoder \<Rightarrow> BatchNorm" and p x s
    unfolding BatchNorm1d_forward_def I_def
    by (rule ensures_weaken [OF ConvEncoder_bn_ensures [OF that(1)]]) (simp add: that(2))
  have vw: "ensures I (lift (view x [int n, - 1])) (\<lambda>y. \<exists>k. shape y = [n, k])" for x
    by (rule ensures_lift) (use view_flat_shape in blast)
  have f1: "ensures I (reads (\<lambda>self. Linear_forward (fc1 self) x)) (\<lambda>y. shape y = [n, 3072])"
    if "\<exists>k. shape x = [n, k]" for x
  proof (rule ensures_reads)
    fix s v assume "I s" "Linear_forward (fc1 s) x = Inr v"
    with that D(10) [of s init L] show "shape v = [n, 3072]"
      by (auto simp: I_def Linear_forward_2d Linear_hyper_def split: if_splits)
  qed
  have f2: "ensures I (reads (\<lambda>self. Linear_forward (fc2 self) (LeakyReLU x))) (\<lambda>y. shape y = [n, 2048])"
    if "shape x = [n, 3072]" for x
  proof (rule ensures_reads)
    fix s v assume "I s" "Linear_forward (fc2 s) (LeakyReLU x) = Inr v"
    with that D(11) [of s init L] show "shape v = [n, 2048]"
      by (auto simp: I_def Linear_forward_2d Linear_hyper_def split: if_splits)
  qed
  have f3: "ensures I (reads (\<lambda>self. Linear_forward (ConvEncoder.mu_logvar_gen self) (LeakyReLU x)))
              (\<lambda>y. shape y = [n, L * 2])"
    if "shape x = [n, 2048]" for x
  proof (rule ensures_reads)
    fix s v assume "I s" "Linear_forward (ConvEncoder.mu_logvar_gen s) (LeakyReLU x) = Inr v"
    with that D(12) [of s init L] show "shape v = [n, L * 2]"
      by (auto simp: I_def Linear_forward_2d Linear_hyper_def split: if_splits)
  qed
  have "ensures I (ConvEncoder_hidden n h) (\<lambda>ml. shape ml = [n, L * 2])"
    unfolding ConvEncoder_hidden_def Let_def
    apply (rule ensures_and_then [OF conv])
    apply (rule ensures_and_then [OF bn2d], simp)
    apply (rule ensures_and_then [OF pool])
    apply (rule ensures_and_then [OF conv])
    apply (rule ensures_and_then [OF bn2d], simp)
    apply (rule ensures_and_then [OF pool])
    apply (rule ensures_and_then [OF conv])
    apply (rule ensures_and_then [OF bn2d], simp)
    apply (rule ensures_and_then [OF vw])
    apply (rule ensures_and_then [OF f1], assumption)
    apply (rule ensures_and_then [OF bn1d], simp, assumption)
    apply (rule ensures_and_then [OF f2], assumption)
    apply (rule ensures_and_then [OF bn1d], simp, assumption)
    apply (rule f3, assumption)
    done
  then show ?thesis by (simp add: I_def)
qed


lemma ConvEncoder_forward_not_4d:
  "length (shape inputs) \<noteq> 4 \<Longrightarrow> ConvEncoder_forward self inputs = (Inl AssertionError, self)"
  by (auto simp: ConvEncoder_forward_def split: list.splits)

lemma ConvEncoder_forward_4d:
  "shape inputs = [n, c, w, h] \<Longrightarrow>
   ConvEncoder_forward self inputs =
     (if c * w * h = 0 then (Inl RuntimeError, self)
      else and_then (ConvEncoder_hidden n inputs) (ConvEncoder_split n) self)"
  by (simp add: ConvEncoder_forward_def view_batch [of inputs n c w h] del: mult_eq_0_iff)

lemma ConvEncoder_forward_split:
  assumes arch: "ConvEncoder_hyper self = ConvEncoder_hyper (ConvEncoder_init init L)"
    and r: "ConvEncoder_forward self x = (Inr outs, s')"
  shows "\<exists>n c w h ml. shape x = [n, c, w, h] \<and> ConvEncoder_hidden n x self = (Inr ml, s')
           \<and> shape ml = [n, L * 2]
           \<and> outs = [Tensor [n, L] (map (\<lambda>i. data ml ! (i * 2)) [0..<n * L]),
                      Tensor [n, L] (map (\<lambda>i. data ml ! (i * 2 + 1)) [0..<n * L])]"
proof -
  have "length (shape x) = 4"
  proof (rule ccontr)
    assume "length (shape x) \<noteq> 4"
    from ConvEncoder_forward_not_4d [OF this, of self] r show False by simp
  qed
  then obtain n c w h where x: "shape x = [n, c, w, h]"
    by (auto simp: length_4_shape)
  from r have "and_then (ConvEncoder_hidden n x) (ConvEncoder_split n) self = (Inr outs, s')"
    by (simp add: ConvEncoder_forward_4d [OF x] split: if_splits del: mult_eq_0_iff)
  then obtain ml s1 where h: "ConvEncoder_hidden n x self = (Inr ml, s1)"
    and sp: "ConvEncoder_split n ml s1 = (Inr outs, s')"
    unfolding and_then_eq_Inr_iff by blast
  have "ensures (\<lambda>s. ConvEncoder_hyper s = ConvEncoder_hyper (ConvEncoder_init init L))
     (ConvEncoder_hidden n x) (\<lambda>ml. shape ml = [n, L * 2])"
    by (rule ConvEncoder_hidden_ensures)
  with arch h
  have s1: "ConvEncoder_hyper s1 = ConvEncoder_hyper (ConvEncoder_init init L)"
    and ml: "shape ml = [n, L * 2]"
    unfolding ensures_def by blast+
  from ConvEncoder_hyperD(1) [OF s1] have L: "ConvEncoder.latent_dim s1 = L" .
  from ml L have "shape ml = [n, ConvEncoder.latent_dim s1 * 2]" by simp
  from ConvEncoder_split_pairs [OF this] sp
  have "(Inr outs, s') = (Inr [Tensor [n, ConvEncoder.latent_dim s1]
            (map (\<lambda>i. data ml ! (i * 2)) [0..<n * ConvEncoder.latent_dim s1]),
           Tensor [n, ConvEncoder.latent_dim s1]
            (map (\<lambda>i. data ml ! (i * 2 + 1)) [0..<n * ConvEncoder.latent_dim s1])], s1)"
    by simp
  then have "s' = s1" "outs = [Tensor [n, L] (map (\<lambda>i. data ml ! (i * 2)) [0..<n * L]),
                      Tensor [n, L] (map (\<lambda>i. data ml ! (i * 2 + 1)) [0..<n * L])]"
    unfolding L by simp_all
  with x h ml show ?thesis by blast
qed


lemma DomainEncoder_hidden_2d:
  assumes arch: "DomainEncoder_hyper self = DomainEncoder_hyper (DomainEncoder_init init k L)"
    and x: "shape inputs = [n]"
    and r: "DomainEncoder_hidden inputs self = (Inr ml, s')"
  shows "shape ml = [n, L * 2]" "DomainEncoder_hyper s' = DomainEncoder_hyper self"
proof -
  note D = DomainEncoder_hyperD [OF arch]
  from r obtain h h' b where h: "Embedding_forward (embed self) inputs = Inr h"
    and b: "batch_norm [2, 3] (bn self) h = (Inr h', b)"
    and l: "Linear_forward (DomainEncoder.mu_logvar_gen self) (LeakyReLU h') = Inr ml"
    and s': "s' = self\<lparr>bn := b\<rparr>"
    by (auto simp: DomainEncoder_hidden_apply split: sum.splits prod.splits)
  from h x D(3) have "shape h = [n, 512]"
    by (auto simp: Embedding_forward_eq_Inr_iff)
  with batch_norm_shape [OF b] have "shape h' = [n, 512]" by simp
  with l D(5) show "shape ml = [n, L * 2]"
    by (auto simp: Linear_forward_2d Linear_hyper_def split: if_splits)
  from batch_norm_frame(1) [OF b] s' show "DomainEncoder_hyper s' = DomainEncoder_hyper self"
    by (simp add: DomainEncoder_hyper_def)
qed


lemma DomainEncoder_forward_split:
  assumes arch: "DomainEncoder_hyper self = DomainEncoder_hyper (DomainEncoder_init init k L)"
    and x: "shape inputs = [n]"
    and r: "DomainEncoder_forward self inputs = (Inr outs, s')"
  shows "\<exists>ml. DomainEncoder_hidden inputs self = (Inr ml, s') \<and> shape ml = [n, L * 2]
           \<and> outs = [Tensor [n, L] (map (\<lambda>i. data ml ! (i * 2)) [0..<n * L]),
                      Tensor [n, L] (map (\<lambda>i. data ml ! (i * 2 + 1)) [0..<n * L])]"
proof -
  from r x obtain ml where h: "DomainEncoder_hidden inputs self = (Inr ml, s')"
    and v: "thn (view ml [int n, int (DomainEncoder.latent_dim s'), 2]) unbind_last = Inr outs"
    by (auto simp: DomainEncoder_forward_apply size0_Cons [OF x] split: sum.splits prod.splits)
  note ml = DomainEncoder_hidden_2d [OF arch x h]
  from ml(2) arch have "DomainEncoder_hyper s' = DomainEncoder_hyper (DomainEncoder_init init k L)"
    by simp
  from DomainEncoder_hyperD(1) [OF this] have "DomainEncoder.latent_dim s' = L" .
  with v ml(1) have "outs = [Tensor [n, L] (map (\<lambda>i. data ml ! (i * 2)) [0..<n * L]),
                      Tensor [n, L] (map (\<lambda>i. data ml ! (i * 2 + 1)) [0..<n * L])]"
    by (simp add: view_pairs_explicit unbind_last_pairs)
  with h ml(1) show ?thesis by simp
qed


text \<open>
  Claim C3. For every latent dimension and every input on which the forward pass returns,
  the mean is the even-indexed and the logvar the odd-indexed components of the output of
  the last linear layer: with \<open>ml\<close> that output, of shape \<open>(B, 2 * latent_dim)\<close>,
  \<open>mean[b, j] = ml[b, 2 j]\<close> and \<open>logvar[b, j] = ml[b, 2 j + 1]\<close>.
\<close>

theorem mean_logvar_interleaved:
  "(EncoderBurgess_init init isz L = Inr e \<longrightarrow>
      EncoderBurgess_hyper eb = EncoderBurgess_hyper e \<longrightarrow>
      EncoderBurgess_forward eb x = Inr (mu, logvar) \<longrightarrow>
      (\<exists>ml n. EncoderBurgess_mu_logvar eb x = Inr ml \<and> shape ml = [n, L * 2]
         \<and> shape mu = [n, L] \<and> shape logvar = [n, L]
         \<and> (\<forall>b j. b < n \<longrightarrow> j < L \<longrightarrow>
               tget mu [b, j] = tget ml [b, 2 * j] \<and> tget logvar [b, j] = tget ml [b, 2 * j + 1])))
   \<and> (ConvEncoder_hyper ce = ConvEncoder_hyper (ConvEncoder_init init' L') \<longrightarrow>
      ConvEncoder_forward ce x' = (Inr outs, ce') \<longrightarrow>
      (\<exists>ml n mu logvar. fst (ConvEncoder_hidden n x' ce) = Inr ml \<and> shape ml = [n, L' * 2]
         \<and> outs = [mu, logvar] \<and> shape mu = [n, L'] \<and> shape logvar = [n, L']
         \<and> (\<forall>b j. b < n \<longrightarrow> j < L' \<longrightarrow>
               tget mu [b, j] = tget ml [b, 2 * j] \<and> tget logvar [b, j] = tget ml [b, 2 * j + 1])))
   \<and> (DomainEncoder_hyper de = DomainEncoder_hyper (DomainEncoder_init init'' k L'') \<longrightarrow>
      shape d = [n''] \<longrightarrow>
      DomainEncoder_forward de d = (Inr outs', de') \<longrightarrow>
      (\<exists>ml mu logvar. fst (DomainEncoder_hidden d de) = Inr ml \<and> shape ml = [n'', L'' * 2]
         \<and> outs' = [mu, logvar] \<and> shape mu = [n'', L''] \<and> shape logvar = [n'', L'']
         \<and> (\<forall>b j. b < n'' \<longrightarrow> j < L'' \<longrightarrow>
               tget mu [b, j] = tget ml [b, 2 * j] \<and> tget logvar [b, j] = tget ml [b, 2 * j + 1])))"
proof (intro conjI impI)
  assume a: "EncoderBurgess_init init isz L = Inr e" "EncoderBurgess_hyper eb = EncoderBurgess_hyper e"
    "EncoderBurgess_forward eb x = Inr (mu, logvar)"
  from EncoderBurgess_forward_split [OF a]
  obtain ml n where ml: "EncoderBurgess_mu_logvar eb x = Inr ml" "shape ml = [n, L * 2]"
    "mu = Tensor [n, L] (map (\<lambda>i. data ml ! (i * 2)) [0..<n * L])"
    "logvar = Tensor [n, L] (map (\<lambda>i. data ml ! (i * 2 + 1)) [0..<n * L])"
    by blast
  have "tget mu [b, j] = tget ml [b, 2 * j] \<and> tget logvar [b, j] = tget ml [b, 2 * j + 1]"
    if "b < n" "j < L" for b j
    unfolding ml(3,4) using split_pairs_elements [OF ml(2) that] by simp
  with ml show "\<exists>ml n. EncoderBurgess_mu_logvar eb x = Inr ml \<and> shape ml = [n, L * 2]
         \<and> shape mu = [n, L] \<and> shape logvar = [n, L]
         \<and> (\<forall>b j. b < n \<longrightarrow> j < L \<longrightarrow>
               tget mu [b, j] = tget ml [b, 2 * j] \<and> tget logvar [b, j] = tget ml [b, 2 * j + 1])"
    by auto
next
  assume a: "ConvEncoder_hyper ce = ConvEncoder_hyper (ConvEncoder_init init' L')"
    "ConvEncoder_forward ce x' = (Inr outs, ce')"
  from ConvEncoder_forward_split [OF a]
  obtain n ml where ml: "ConvEncoder_hidden n x' ce = (Inr ml, ce')" "shape ml = [n, L' * 2]"
    "outs = [Tensor [n, L'] (map (\<lambda>i. data ml ! (i * 2)) [0..<n * L']),
             Tensor [n, L'] (map (\<lambda>i. data ml ! (i * 2 + 1)) [0..<n * L'])]"
    by blast
  define mu where "mu = Tensor [n, L'] (map (\<lambda>i. data ml ! (i * 2)) [0..<n * L'])"
  define logvar where "logvar = Tensor [n, L'] (map (\<lambda>i. data ml ! (i * 2 + 1)) [0..<n * L'])"
  have "tget mu [b, j] = tget ml [b, 2 * j] \<and> tget logvar [b, j] = tget ml [b, 2 * j + 1]"
    if "b < n" "j < L'" for b j
    unfolding mu_def logvar_def using split_pairs_elements [OF ml(2) that] by simp
  moreover have "outs = [mu, logvar]" "shape mu = [n, L']" "shape logvar = [n, L']"
    by (simp_all add: mu_def logvar_def ml(3))
  moreover from ml(1) have "fst (ConvEncoder_hidden n x' ce) = Inr ml" by simp
  ultimately show "\<exists>ml n mu logvar. fst (ConvEncoder_hidden n x' ce) = Inr ml \<and> shape ml = [n, L' * 2]
         \<and> outs = [mu, logvar] \<and> shape mu = [n, L'] \<and> shape logvar = [n, L']
         \<and> (\<forall>b j. b < n \<longrightarrow> j < L' \<longrightarrow>
               tget mu [b, j] = tget ml [b, 2 * j] \<and> tget logvar [b, j] = tget ml [b, 2 * j + 1])"
    using ml(2) by blast
next
  assume a: "DomainEncoder_hyper de = DomainEncoder_hyper (DomainEncoder_init init'' k L'')"
    "shape d = [n'']" "DomainEncoder_forward de d = (Inr outs', de')"
  from DomainEncoder_forward_split [OF a]
  obtain ml where ml: "DomainEncoder_hidden d de = (Inr ml, de')" "shape ml = [n'', L'' * 2]"
    "outs' = [Tensor [n'', L''] (map (\<lambda>i. data ml ! (i * 2)) [0..<n'' * L'']),
             Tensor [n'', L''] (map (\<lambda>i. data ml ! (i * 2 + 1)) [0..<n'' * L''])]"
    by blast
  define mu where "mu = Tensor [n'', L''] (map (\<lambda>i. data ml ! (i * 2)) [0..<n'' * L''])"
  define logvar where "logvar = Tensor [n'', L''] (map (\<lambda>i. data ml ! (i * 2 + 1)) [0..<n'' * L''])"
  have "tget mu [b, j] = tget ml [b, 2 * j] \<and> tget logvar [b, j] = tget ml [b, 2 * j + 1]"
    if "b < n''" "j < L''" for b j
    unfolding mu_def logvar_def using split_pairs_elements [OF ml(2) that] by simp
  moreover have "outs' = [mu, logvar]" "shape mu = [n'', L'']" "shape logvar = [n'', L'']"
    by (simp_all add: mu_def logvar_def ml(3))
  moreover from ml(1) have "fst (DomainEncoder_hidden d de) = Inr ml" by simp
  ultimately show "\<exists>ml mu logvar. fst (DomainEncoder_hidden d de) = Inr ml \<and> shape ml = [n'', L'' * 2]
         \<and> outs' = [mu, logvar] \<and> shape mu = [n'', L''] \<and> shape logvar = [n'', L'']
         \<and> (\<forall>b j. b < n'' \<longrightarrow> j < L'' \<longrightarrow>
               tget mu [b, j] = tget ml [b, 2 * j] \<and> tget logvar [b, j] = tget ml [b, 2 * j + 1])"
    using ml(2) by blast
qed


theorem mean_logvar_interleaved_witness:
  "(\<exists>e mu logvar ml. EncoderBurgess_init (\<lambda>_ _. 0) [3, 32, 32] 10 = Inr e
       \<and> EncoderBurgess_forward e (Tensor [2, 3, 32, 32] (replicate 6144 0)) = Inr (mu, logvar)
       \<and> EncoderBurgess_mu_logvar e (Tensor [2, 3, 32, 32] (replicate 6144 0)) = Inr ml
       \<and> tget mu [1, 3] = tget ml [1, 6] \<and> tget logvar [1, 3] = tget ml [1, 7])
   \<and> (\<exists>mu logvar ce' ml.
         ConvEncoder_forward (ConvEncoder_init (\<lambda>_ _. 0) 10) (Tensor [2, 3, 32, 32] (replicate 6144 0))
           = (Inr [mu, logvar], ce')
       \<and> fst (ConvEncoder_hidden 2 (Tensor [2, 3, 32, 32] (replicate 6144 0))
                (ConvEncoder_init (\<lambda>_ _. 0) 10)) = Inr ml
       \<and> tget mu [1, 3] = tget ml [1, 6] \<and> tget logvar [1, 3] = tget ml [1, 7])
   \<and> (\<exists>mu logvar de' ml.
         DomainEncoder_forward (DomainEncoder_init (\<lambda>_ _. 0) 3 10) (Tensor [2] [0, 2])
           = (Inr [mu, logvar], de')
       \<and> fst (DomainEncoder_hidden (Tensor [2] [0, 2]) (DomainEncoder_init (\<lambda>_ _. 0) 3 10)) = Inr ml
       \<and> tget mu [1, 3] = tget ml [1, 6] \<and> tget logvar [1, 3] = tget ml [1, 7])"
proof -
  define z :: initialiser where "z = (\<lambda>_ _. 0)"
  define xb where "xb = Tensor [2, 3, 32, 32] (replicate 6144 (0::real))"
  define ce where "ce = ConvEncoder_init z 10"
  define de where "de = DomainEncoder_init z 3 10"
  define xd where "xd = Tensor [2] [0, 2::int]"
  obtain e where e: "EncoderBurgess_init z [3, 32, 32] 10 = Inr e"
    by (simp add: EncoderBurgess_init_eq_Inr_iff)
  from EncoderBurgess_forward_shape [OF e refl, of xb 2 32 32 8]
  obtain mu logvar where b: "EncoderBurgess_forward e xb = Inr (mu, logvar)" "shape mu = [2, 10]"
    by (auto simp: xb_def)
  have c: "128 * conv_out_size (conv_out_size 32 3 2 1) 3 2 1
          * conv_out_size (conv_out_size 32 3 2 1) 3 2 1 = (8192::nat)"
    by (simp add: conv_out_size_def)
  from ConvEncoder_forward_shape [of ce z 10 xb 2 32 32, OF _ _ _ _ _ c]
  obtain muc logvarc ce' where cf: "ConvEncoder_forward ce xb = (Inr [muc, logvarc], ce')"
    "shape muc = [2, 10]"
    by (auto simp: xb_def ce_def)
  from DomainEncoder_forward_shape [of de z 3 10 xd 2]
  obtain mud logvard de' where df: "DomainEncoder_forward de xd = (Inr [mud, logvard], de')"
    "shape mud = [2, 10]"
    by (auto simp: xd_def de_def)
  note T = mean_logvar_interleaved [of z "[3, 32, 32]" 10 e e xb mu logvar
      ce z 10 xb "[muc, logvarc]" ce' de z 3 10 xd 2 "[mud, logvard]" de']
  have idx: "\<And>P n. \<forall>b j. b < n \<longrightarrow> j < 10 \<longrightarrow> P b j \<Longrightarrow> n = 2 \<Longrightarrow> P (1::nat) (3::nat)"
    by simp
  from T e b obtain ml n where 1: "EncoderBurgess_mu_logvar e xb = Inr ml" "shape mu = [n, 10]"
    "\<forall>b j. b < n \<longrightarrow> j < 10 \<longrightarrow>
        tget mu [b, j] = tget ml [b, 2 * j] \<and> tget logvar [b, j] = tget ml [b, 2 * j + 1]"
    by auto
  from 1(2) b(2) have "n = 2" by simp
  from idx [OF 1(3) this]
  have r1: "tget mu [1, 3] = tget ml [1, 6] \<and> tget logvar [1, 3] = tget ml [1, 7]"
    by simp
  from T cf obtain mlc nc where 2: "fst (ConvEncoder_hidden nc xb ce) = Inr mlc" "shape muc = [nc, 10]"
    "\<forall>b j. b < nc \<longrightarrow> j < 10 \<longrightarrow>
        tget muc [b, j] = tget mlc [b, 2 * j] \<and> tget logvarc [b, j] = tget mlc [b, 2 * j + 1]"
    by (auto simp: ce_def)
  from 2(2) cf(2) have nc: "nc = 2" by simp
  from idx [OF 2(3) this]
  have r2: "tget muc [1, 3] = tget mlc [1, 6] \<and> tget logvarc [1, 3] = tget mlc [1, 7]"
    by simp
  from T df obtain mld where 3: "fst (DomainEncoder_hidden xd de) = Inr mld"
    "\<forall>b j. b < 2 \<longrightarrow> j < 10 \<longrightarrow>
        tget mud [b, j] = tget mld [b, 2 * j] \<and> tget logvard [b, j] = tget mld [b, 2 * j + 1]"
    by (auto simp: de_def xd_def)
  from idx [OF 3(2) refl]
  have r3: "tget mud [1, 3] = tget mld [1, 6] \<and> tget logvard [1, 3] = tget mld [1, 7]"
    by simp
  from e b(1) 1(1) r1 have A: "\<exists>e mu logvar ml. EncoderBurgess_init z [3, 32, 32] 10 = Inr e
       \<and> EncoderBurgess_forward e xb = Inr (mu, logvar)
       \<and> EncoderBurgess_mu_logvar e xb = Inr ml
       \<and> tget mu [1, 3] = tget ml [1, 6] \<and> tget logvar [1, 3] = tget ml [1, 7]"
    by blast
  from cf(1) 2(1) r2 nc have B: "\<exists>mu logvar ce' ml.
         ConvEncoder_forward ce xb = (Inr [mu, logvar], ce')
       \<and> fst (ConvEncoder_hidden 2 xb ce) = Inr ml
       \<and> tget mu [1, 3] = tget ml [1, 6] \<and> tget logvar [1, 3] = tget ml [1, 7]"
    by blast
  from df(1) 3(1) r3 have C: "\<exists>mu logvar de' ml.
         DomainEncoder_forward de xd = (Inr [mu, logvar], de')
       \<and> fst (DomainEncoder_hidden xd de) = Inr ml
       \<and> tget mu [1, 3] = tget ml [1, 6] \<and> tget logvar [1, 3] = tget ml [1, 7]"
    by blast
  from A B C show ?thesis
    unfolding z_def xb_def ce_def de_def xd_def by blast
qed


section \<open>Claim C8: the domain indices\<close>



lemma DomainEncoder_init_hyper [simp]:
  "training (bn (DomainEncoder_init init k L))"
  "num_embeddings (embed (DomainEncoder_init init k L)) = k"
  by (simp_all add: DomainEncoder_init_def Embedding_init_def)





section \<open>Claim C7: what the forward pass leaves unchanged\<close>

lemma keeps_and_then:
  assumes "keeps R m" "\<And>v. keeps R (f v)" "\<And>a b c. R a b \<Longrightarrow> R b c \<Longrightarrow> R a c"
  shows "keeps R (and_then m f)"
  unfolding keeps_def
proof
  fix s
  obtain r s' where ms: "m s = (r, s')" by (cases "m s")
  from assms(1) ms have 1: "R s s'" by (auto simp: keeps_def dest: spec [of _ s])
  show "R s (snd (and_then m f s))"
  proof (cases r)
    case (Inl e)
    with ms 1 show ?thesis by (simp add: and_then_def)
  next
    case (Inr v)
    from assms(2) [of v] have "R s' (snd (f v s'))" by (simp add: keeps_def)
    with 1 have "R s (snd (f v s'))" by (rule assms(3))
    with ms Inr show ?thesis by (simp add: and_then_def)
  qed
qed

lemma keeps_reads: "(\<And>s. R s s) \<Longrightarrow> keeps R (reads f)"
  by (simp add: keeps_def)

lemma keeps_lift: "(\<And>s. R s s) \<Longrightarrow> keeps R (lift r)"
  by (simp add: keeps_def)

lemma keeps_on_layer:
  "(\<And>s. R s (put (snd (step (get s))) s)) \<Longrightarrow> keeps R (on_layer get put step)"
  by (simp add: keeps_def on_layer_apply)

lemma ConvEncoder_frame_refl: "ConvEncoder_frame s s"
  by (simp add: ConvEncoder_frame_def)

lemma ConvEncoder_frame_trans:
  "ConvEncoder_frame a b \<Longrightarrow> ConvEncoder_frame b c \<Longrightarrow> ConvEncoder_frame a c"
  by (auto simp: ConvEncoder_frame_def split: if_splits)

lemma BatchNorm_parameters_frame:
  "batch_norm dims m x = (r, m') \<Longrightarrow> BatchNorm_parameters m' = BatchNorm_parameters m"
  by (simp add: BatchNorm_parameters_def batch_norm_frame)

lemma frame_bn1:
  assumes "BatchNorm_parameters l = BatchNorm_parameters (bn1 s)"
    and "num_features l = num_features (bn1 s)" and "training l = training (bn1 s)"
    and "\<not> training (bn1 s) \<Longrightarrow> l = bn1 s"
  shows "ConvEncoder_frame s (s\<lparr>bn1 := l\<rparr>)"
proof -
  have "s\<lparr>bn1 := l\<rparr> = s" if "True \<notin> set (ConvEncoder_training s)"
  proof -
    from that have "\<not> training (bn1 s)" by (simp add: ConvEncoder_training_def)
    from assms(4) [OF this] show ?thesis by simp
  qed
  with assms(1-3) show ?thesis
    by (simp add: ConvEncoder_frame_def ConvEncoder_parameters_def ConvEncoder_hyper_def
      ConvEncoder_training_def)
qed

lemma frame_bn2:
  assumes "BatchNorm_parameters l = BatchNorm_parameters (bn2 s)"
    and "num_features l = num_features (bn2 s)" and "training l = training (bn2 s)"
    and "\<not> training (bn2 s) \<Longrightarrow> l = bn2 s"
  shows "ConvEncoder_frame s (s\<lparr>bn2 := l\<rparr>)"
proof -
  have "s\<lparr>bn2 := l\<rparr> = s" if "True \<notin> set (ConvEncoder_training s)"
  proof -
    from that have "\<not> training (bn2 s)" by (simp add: ConvEncoder_training_def)
    from assms(4) [OF this] show ?thesis by simp
  qed
  with assms(1-3) show ?thesis
    by (simp add: ConvEncoder_frame_def ConvEncoder_parameters_def ConvEncoder_hyper_def
      ConvEncoder_training_def)
qed

lemma frame_bn3:
  assumes "BatchNorm_parameters l = BatchNorm_parameters (bn3 s)"
    and "num_features l = num_features (bn3 s)" and "training l = training (bn3 s)"
    and "\<not> training (bn3 s) \<Longrightarrow> l = bn3 s"
  shows "ConvEncoder_frame s (s\<lparr>bn3 := l\<rparr>)"
proof -
  have "s\<lparr>bn3 := l\<rparr> = s" if "True \<notin> set (ConvEncoder_training s)"
  proof -
    from that have "\<not> training (bn3 s)" by (simp add: ConvEncoder_training_def)
    from assms(4) [OF this] show ?thesis by simp
  qed
  with assms(1-3) show ?thesis
    by (simp add: ConvEncoder_frame_def ConvEncoder_parameters_def ConvEncoder_hyper_def
      ConvEncoder_training_def)
qed

lemma frame_bn1_fc:
  assumes "BatchNorm_parameters l = BatchNorm_parameters (bn1_fc s)"
    and "num_features l = num_features (bn1_fc s)" and "training l = training (bn1_fc s)"
    and "\<not> training (bn1_fc s) \<Longrightarrow> l = bn1_fc s"
  shows "ConvEncoder_frame s (s\<lparr>bn1_fc := l\<rparr>)"
proof -
  have "s\<lparr>bn1_fc := l\<rparr> = s" if "True \<notin> set (ConvEncoder_training s)"
  proof -
    from that have "\<not> training (bn1_fc s)" by (simp add: ConvEncoder_training_def)
    from assms(4) [OF this] show ?thesis by simp
  qed
  with assms(1-3) show ?thesis
    by (simp add: ConvEncoder_frame_def ConvEncoder_parameters_def ConvEncoder_hyper_def
      ConvEncoder_training_def)
qed

lemma frame_bn2_fc:
  assumes "BatchNorm_parameters l = BatchNorm_parameters (bn2_fc s)"
    and "num_features l = num_features (bn2_fc s)" and "training l = training (bn2_fc s)"
    and "\<not> training (bn2_fc s) \<Longrightarrow> l = bn2_fc s"
  shows "ConvEncoder_frame s (s\<lparr>bn2_fc := l\<rparr>)"
proof -
  have "s\<lparr>bn2_fc := l\<rparr> = s" if "True \<notin> set (ConvEncoder_training s)"
  proof -
    from that have "\<not> training (bn2_fc s)" by (simp add: ConvEncoder_training_def)
    from assms(4) [OF this] show ?thesis by simp
  qed
  with assms(1-3) show ?thesis
    by (simp add: ConvEncoder_frame_def ConvEncoder_parameters_def ConvEncoder_hyper_def
      ConvEncoder_training_def)
qed

lemma ConvEncoder_frame_put:
  fixes g :: "ConvEncoder \<Rightarrow> BatchNorm" and p :: "BatchNorm \<Rightarrow> ConvEncoder \<Rightarrow> ConvEncoder"
  assumes gp: "(g, p) \<in> {(bn1, \<lambda>l s. s\<lparr>bn1 := l\<rparr>), (bn2, \<lambda>l s. s\<lparr>bn2 := l\<rparr>), (bn3, \<lambda>l s. s\<lparr>bn3 := l\<rparr>),
                    (bn1_fc, \<lambda>l s. s\<lparr>bn1_fc := l\<rparr>), (bn2_fc, \<lambda>l s. s\<lparr>bn2_fc := l\<rparr>)}"
    and a: "BatchNorm_parameters l = BatchNorm_parameters (g s)"
      "num_features l = num_features (g s)" "training l = training (g s)"
      "\<not> training (g s) \<Longrightarrow> l = g s"
  shows "ConvEncoder_frame s (p l s)"
proof -
  from gp consider
      (1) "g = bn1" "p = (\<lambda>l s. s\<lparr>bn1 := l\<rparr>)"
    | (2) "g = bn2" "p = (\<lambda>l s. s\<lparr>bn2 := l\<rparr>)"
    | (3) "g = bn3" "p = (\<lambda>l s. s\<lparr>bn3 := l\<rparr>)"
    | (4) "g = bn1_fc" "p = (\<lambda>l s. s\<lparr>bn1_fc := l\<rparr>)"
    | (5) "g = bn2_fc" "p = (\<lambda>l s. s\<lparr>bn2_fc := l\<rparr>)"
    by blast
  then show ?thesis
  proof cases
    case 1
    with a frame_bn1 [of l s] show ?thesis by simp
  next
    case 2
    with a frame_bn2 [of l s] show ?thesis by simp
  next
    case 3
    with a frame_bn3 [of l s] show ?thesis by simp
  next
    case 4
    with a frame_bn1_fc [of l s] show ?thesis by simp
  next
    case 5
    with a frame_bn2_fc [of l s] show ?thesis by simp
  qed
qed

lemma ConvEncoder_bn_keeps:
  fixes g :: "ConvEncoder \<Rightarrow> BatchNorm" and p :: "BatchNorm \<Rightarrow> ConvEncoder \<Rightarrow> ConvEncoder"
  assumes "(g, p) \<in> {(bn1, \<lambda>l s. s\<lparr>bn1 := l\<rparr>), (bn2, \<lambda>l s. s\<lparr>bn2 := l\<rparr>), (bn3, \<lambda>l s. s\<lparr>bn3 := l\<rparr>),
                    (bn1_fc, \<lambda>l s. s\<lparr>bn1_fc := l\<rparr>), (bn2_fc, \<lambda>l s. s\<lparr>bn2_fc := l\<rparr>)}"
  shows "keeps ConvEncoder_frame (on_layer g p (\<lambda>l. batch_norm dims l x))"
proof (rule keeps_on_layer)
  fix s
  obtain r l where rl: "batch_norm dims (g s) x = (r, l)" by (cases "batch_norm dims (g s) x")
  have "ConvEncoder_frame s (p l s)"
  proof (rule ConvEncoder_frame_put [OF assms])
    show "BatchNorm_parameters l = BatchNorm_parameters (g s)"
      by (rule BatchNorm_parameters_frame [OF rl])
    show "num_features l = num_features (g s)" "training l = training (g s)"
      by (rule batch_norm_frame [OF rl])+
    show "l = g s" if "\<not> training (g s)"
      using batch_norm_eval_state [OF that, of dims x] rl by simp
  qed
  with rl show "ConvEncoder_frame s (p (snd (batch_norm dims (g s) x)) s)" by simp
qed


lemmas keeps_frame_and_then = keeps_and_then [where R = ConvEncoder_frame, OF _ _ ConvEncoder_frame_trans]

lemma keeps_frame_reads: "keeps ConvEncoder_frame (reads f)"
  by (rule keeps_reads) (rule ConvEncoder_frame_refl)

lemma keeps_frame_lift: "keeps ConvEncoder_frame (lift r)"
  by (rule keeps_lift) (rule ConvEncoder_frame_refl)

lemma ConvEncoder_hidden_keeps: "keeps ConvEncoder_frame (ConvEncoder_hidden n h)"
  unfolding ConvEncoder_hidden_def Let_def BatchNorm1d_forward_def BatchNorm2d_forward_def
  by (intro keeps_frame_and_then keeps_frame_reads keeps_frame_lift ConvEncoder_bn_keeps) simp_all

lemma ConvEncoder_split_keeps: "keeps ConvEncoder_frame (ConvEncoder_split n ml)"
  unfolding ConvEncoder_split_def by (rule keeps_frame_reads)

lemma ConvEncoder_forward_frame: "ConvEncoder_frame self (snd (ConvEncoder_forward self x))"
proof (cases "length (shape x) = 4")
  case False
  then show ?thesis
    by (simp add: ConvEncoder_forward_not_4d ConvEncoder_frame_refl)
next
  case True
  then obtain n c w h where x: "shape x = [n, c, w, h]"
    by (auto simp: length_4_shape)
  have "keeps ConvEncoder_frame (and_then (ConvEncoder_hidden n x) (ConvEncoder_split n))"
    by (intro keeps_frame_and_then ConvEncoder_hidden_keeps ConvEncoder_split_keeps)
  then show ?thesis
    by (simp add: ConvEncoder_forward_4d [OF x] keeps_def ConvEncoder_frame_refl del: mult_eq_0_iff)
qed

lemma DomainEncoder_frame_refl: "DomainEncoder_frame s s"
  by (simp add: DomainEncoder_frame_def)

lemma DomainEncoder_frame_put:
  assumes "batch_norm dims (bn s) x = (r, l)"
  shows "DomainEncoder_frame s (s\<lparr>bn := l\<rparr>)"
proof -
  have "s\<lparr>bn := l\<rparr> = s" if "\<not> training (bn s)"
    using batch_norm_eval_state [OF that, of dims x] assms by simp
  with batch_norm_frame [OF assms] show ?thesis
    by (simp add: DomainEncoder_frame_def DomainEncoder_parameters_def DomainEncoder_hyper_def
        BatchNorm_parameters_def)
qed

lemma DomainEncoder_hidden_frame: "DomainEncoder_frame self (snd (DomainEncoder_hidden x self))"
proof (cases "Embedding_forward (embed self) x")
  case (Inl e)
  then show ?thesis by (simp add: DomainEncoder_hidden_apply DomainEncoder_frame_refl)
next
  case (Inr h)
  obtain r l where rl: "batch_norm [2, 3] (bn self) h = (r, l)"
    by (cases "batch_norm [2, 3] (bn self) h")
  from DomainEncoder_frame_put [OF rl] Inr rl show ?thesis
    by (cases r) (simp_all add: DomainEncoder_hidden_apply)
qed

lemma DomainEncoder_forward_frame: "DomainEncoder_frame self (snd (DomainEncoder_forward self x))"
proof (cases "size0 x")
  case (Inl e)
  then show ?thesis by (simp add: DomainEncoder_forward_apply DomainEncoder_frame_refl)
next
  case (Inr n)
  obtain r s where rs: "DomainEncoder_hidden x self = (r, s)"
    by (cases "DomainEncoder_hidden x self")
  with DomainEncoder_hidden_frame [of self x] have "DomainEncoder_frame self s" by simp
  with Inr rs show ?thesis
    by (cases r) (simp_all add: DomainEncoder_forward_apply)
qed

lemma DomainEncoder_forward_counter:
  assumes "training (bn self)" "shape x = [n]"
    and "\<forall>i\<in>set (data x). 0 \<le> i \<and> i < int (num_embeddings (embed self))"
  shows "num_batches_tracked (bn (snd (DomainEncoder_forward self x))) = num_batches_tracked (bn self) + 1"
proof -
  from assms(3) obtain h where h: "Embedding_forward (embed self) x = Inr h"
    and sh: "shape h = [n, embedding_dim (embed self)]"
    by (auto simp: Embedding_forward_eq_Inr_iff assms(2))
  obtain r l where rl: "batch_norm [2, 3] (bn self) h = (r, l)"
    by (cases "batch_norm [2, 3] (bn self) h")
  from batch_norm_training_counter [OF assms(1), of h "[2, 3]"] sh rl
  have "num_batches_tracked l = num_batches_tracked (bn self) + 1" by simp
  with h rl show ?thesis
    by (cases r) (simp_all add: DomainEncoder_forward_apply DomainEncoder_hidden_apply
        size0_Cons [OF assms(2)] split: sum.splits)
qed


lemma ConvEncoder_eval_training [simp]:
  "ConvEncoder_training (ConvEncoder_eval self) = [False, False, False, False, False]"
  by (simp add: ConvEncoder_training_def ConvEncoder_eval_def)

lemma ConvEncoder_eval_hyper [simp]: "ConvEncoder_hyper (ConvEncoder_eval self) = ConvEncoder_hyper self"
  by (simp add: ConvEncoder_hyper_def ConvEncoder_eval_def)

lemma DomainEncoder_eval_training [simp]: "\<not> training (bn (DomainEncoder_eval self))"
  by (simp add: DomainEncoder_eval_def)

lemma DomainEncoder_eval_hyper [simp]:
  "DomainEncoder_hyper (DomainEncoder_eval self) = DomainEncoder_hyper self"
  by (simp add: DomainEncoder_hyper_def DomainEncoder_eval_def)

text \<open>
  The claim as it is written fails on an encoder with batch normalisation in training
  mode: the forward pass of a \<^verbatim>\<open>DomainEncoder\<close> as its constructor leaves it increments the
  buffer \<^verbatim>\<open>num_batches_tracked\<close> of the layer, so the module after the call is not the module
  before it.
\<close>

theorem DomainEncoder_forward_updates_counterexample:
  "num_batches_tracked (bn (DomainEncoder_init zero_init 3 10)) = 0
   \<and> num_batches_tracked
        (bn (snd (DomainEncoder_forward (DomainEncoder_init zero_init 3 10) (Tensor [2] [0, 1])))) = 1
   \<and> snd (DomainEncoder_forward (DomainEncoder_init zero_init 3 10) (Tensor [2] [0, 1]))
        \<noteq> DomainEncoder_init zero_init 3 10"
proof -
  have 0: "num_batches_tracked (bn (DomainEncoder_init zero_init 3 10)) = 0"
    by (simp add: DomainEncoder_init_def BatchNorm_init_def)
  have "num_batches_tracked
        (bn (snd (DomainEncoder_forward (DomainEncoder_init zero_init 3 10) (Tensor [2] [0, 1]))))
         = num_batches_tracked (bn (DomainEncoder_init zero_init 3 10)) + 1"
    by (rule DomainEncoder_forward_counter [where n = 2]) simp_all
  with 0 have 1: "num_batches_tracked
        (bn (snd (DomainEncoder_forward (DomainEncoder_init zero_init 3 10) (Tensor [2] [0, 1])))) = 1"
    by simp
  from 0 1 have "snd (DomainEncoder_forward (DomainEncoder_init zero_init 3 10) (Tensor [2] [0, 1]))
        \<noteq> DomainEncoder_init zero_init 3 10"
    by (metis zero_neq_one)
  with 0 1 show ?thesis by simp
qed

text \<open>
  Claim C7, amended. A forward pass of \<^verbatim>\<open>ConvEncoder\<close> or \<^verbatim>\<open>DomainEncoder\<close>, whether it returns
  or raises, leaves every parameter, the architecture and the training flags of the module
  unchanged. When no batch-normalisation layer is in training mode it leaves the whole
  module unchanged, so that a second call on the same input has the same outcome. (In
  training mode the buffers of the batch-normalisation layers are updated. The result is a
  function of the module and the input in every mode; \<^verbatim>\<open>EncoderBurgess\<close> has no buffer and
  its forward pass writes nothing.)
\<close>

theorem forward_frame:
  "ConvEncoder_parameters (snd (ConvEncoder_forward ce x)) = ConvEncoder_parameters ce
   \<and> ConvEncoder_hyper (snd (ConvEncoder_forward ce x)) = ConvEncoder_hyper ce
   \<and> ConvEncoder_training (snd (ConvEncoder_forward ce x)) = ConvEncoder_training ce
   \<and> (True \<notin> set (ConvEncoder_training ce) \<longrightarrow>
         snd (ConvEncoder_forward ce x) = ce
         \<and> ConvEncoder_forward (snd (ConvEncoder_forward ce x)) x = ConvEncoder_forward ce x)
   \<and> DomainEncoder_parameters (snd (DomainEncoder_forward de d)) = DomainEncoder_parameters de
   \<and> DomainEncoder_hyper (snd (DomainEncoder_forward de d)) = DomainEncoder_hyper de
   \<and> training (bn (snd (DomainEncoder_forward de d))) = training (bn de)
   \<and> (\<not> training (bn de) \<longrightarrow>
         snd (DomainEncoder_forward de d) = de
         \<and> DomainEncoder_forward (snd (DomainEncoder_forward de d)) d = DomainEncoder_forward de d)"
  using ConvEncoder_forward_frame [of ce x] DomainEncoder_forward_frame [of de d]
  by (simp add: ConvEncoder_frame_def DomainEncoder_frame_def split: if_splits)

theorem forward_frame_witness:
  "snd (ConvEncoder_forward (ConvEncoder_eval (ConvEncoder_init zero_init 10))
          (Tensor [2, 3, 32, 32] (replicate 6144 0)))
     = ConvEncoder_eval (ConvEncoder_init zero_init 10)
   \<and> ConvEncoder_parameters (snd (ConvEncoder_forward (ConvEncoder_init zero_init 10)
          (Tensor [2, 3, 32, 32] (replicate 6144 0))))
     = ConvEncoder_parameters (ConvEncoder_init zero_init 10)
   \<and> snd (DomainEncoder_forward (DomainEncoder_eval (DomainEncoder_init zero_init 3 10))
          (Tensor [2] [0, 1]))
     = DomainEncoder_eval (DomainEncoder_init zero_init 3 10)
   \<and> DomainEncoder_parameters (snd (DomainEncoder_forward (DomainEncoder_init zero_init 3 10)
          (Tensor [2] [0, 1])))
     = DomainEncoder_parameters (DomainEncoder_init zero_init 3 10)"
  using forward_frame [of "ConvEncoder_eval (ConvEncoder_init zero_init 10)"
      "Tensor [2, 3, 32, 32] (replicate 6144 0)"
      "DomainEncoder_eval (DomainEncoder_init zero_init 3 10)" "Tensor [2] [0, 1]"]
    forward_frame [of "ConvEncoder_init zero_init 10"
      "Tensor [2, 3, 32, 32] (replicate 6144 0)"
      "DomainEncoder_init zero_init 3 10" "Tensor [2] [0, 1]"]
  by simp


section \<open>Claim C6: one sample at a time\<close>

lemma sample_map: "sample m (map f xs) b = map f (sample m xs b)"
  by (simp add: sample_def take_map drop_map)

lemma agree_atI:
  assumes "shape x = n # rest" "shape y = n' # rest" "i < n" "i < n'"
    "sample (prod_list rest) (data x) i = sample (prod_list rest) (data y) i"
  shows "agree_at i n n' x y"
  using assms by (auto simp: agree_at_def)

lemma agree_at_map:
  assumes "agree_at i n n' x y"
  shows "agree_at i n n' (Tensor (shape x) (map f (data x))) (Tensor (shape y) (map f (data y)))"
  using assms by (auto simp: agree_at_def sample_map)

lemma agree_at_relu: "agree_at i n n' x y \<Longrightarrow> agree_at i n n' (relu x) (relu y)"
  unfolding relu_def by (rule agree_at_map)

lemma agree_at_LeakyReLU: "agree_at i n n' x y \<Longrightarrow> agree_at i n n' (LeakyReLU x) (LeakyReLU y)"
  unfolding LeakyReLU_def by (rule agree_at_map)

text \<open>A layer that works sample by sample.\<close>

lemma agree_at_per_sample:
  assumes a: "agree_at i n n' x y"
    and sx: "shape x = n # rest" 
    and len: "\<And>zs. length (f zs) = prod_list rest'"
  shows "agree_at i n n'
           (Tensor (n # rest') (per_sample n (prod_list rest) f (data x)))
           (Tensor (n' # rest') (per_sample n' (prod_list rest) f (data y)))"
proof -
  from a sx have sy: "shape y = n' # rest" and i: "i < n" "i < n'"
    and s: "sample (prod_list rest) (data x) i = sample (prod_list rest) (data y) i"
    by (auto simp: agree_at_def)
  have "sample (prod_list rest') (per_sample n (prod_list rest) f (data x)) i
          = f (sample (prod_list rest) (data x) i)"
    by (rule sample_per_sample [OF len i(1)])
  moreover have "sample (prod_list rest') (per_sample n' (prod_list rest) f (data y)) i
          = f (sample (prod_list rest) (data y) i)"
    by (rule sample_per_sample [OF len i(2)])
  ultimately show ?thesis
    using s i by (intro agree_atI [where rest = rest']) simp_all
qed

lemma length_conv2d_sample:
  "length (conv2d_sample m h w xs) =
     out_channels m * (conv_out_size h (kernel_size m) (stride m) (padding m)
       * conv_out_size w (kernel_size m) (stride m) (padding m))"
  by (simp add: conv2d_sample_def Let_def length_concat_const)

lemma length_linear_row: "length (linear_row m xs) = out_features m"
  by (simp add: linear_row_def)

lemma length_max_pool2d_sample:
  "length (max_pool2d_sample c h w k s p xs) = c * (conv_out_size h k s p * conv_out_size w k s p)"
  by (simp add: max_pool2d_sample_def length_concat_const)

lemma length_normalise_sample: "length (normalise_sample m mu var c inner xs) = c * inner"
  by (simp add: normalise_sample_def length_concat_const)


lemma agree_at_Conv2d:
  assumes a: "agree_at i n n' x y"
    and x: "Conv2d_forward m x = Inr x'" and y: "Conv2d_forward m y = Inr y'"
  shows "agree_at i n n' x' y'"
proof -
  from x obtain n0 h w where sx: "shape x = [n0, in_channels m, h, w]"
    and x': "x' = Tensor [n0, out_channels m,
                 conv_out_size h (kernel_size m) (stride m) (padding m),
                 conv_out_size w (kernel_size m) (stride m) (padding m)]
                (per_sample n0 (in_channels m * h * w) (conv2d_sample m h w) (data x))"
    unfolding Conv2d_forward_eq_Inr_iff by blast
  from y obtain n1 h1 w1 where sy: "shape y = [n1, in_channels m, h1, w1]"
    and y': "y' = Tensor [n1, out_channels m,
                 conv_out_size h1 (kernel_size m) (stride m) (padding m),
                 conv_out_size w1 (kernel_size m) (stride m) (padding m)]
                (per_sample n1 (in_channels m * h1 * w1) (conv2d_sample m h1 w1) (data y))"
    unfolding Conv2d_forward_eq_Inr_iff by blast
  from a sx sy have e: "n0 = n" "n1 = n'" "h1 = h" "w1 = w"
    by (auto simp: agree_at_def)
  have p: "in_channels m * h * w = prod_list [in_channels m, h, w]"
    by (simp add: mult.assoc)
  from sx e have sx': "shape x = n # [in_channels m, h, w]" by simp
  have "agree_at i n n'
           (Tensor (n # [out_channels m,
                 conv_out_size h (kernel_size m) (stride m) (padding m),
                 conv_out_size w (kernel_size m) (stride m) (padding m)])
              (per_sample n (prod_list [in_channels m, h, w]) (conv2d_sample m h w) (data x)))
           (Tensor (n' # [out_channels m,
                 conv_out_size h (kernel_size m) (stride m) (padding m),
                 conv_out_size w (kernel_size m) (stride m) (padding m)])
              (per_sample n' (prod_list [in_channels m, h, w]) (conv2d_sample m h w) (data y)))"
    by (rule agree_at_per_sample [OF a sx']) (simp add: length_conv2d_sample)
  then show ?thesis
    unfolding x' y' e p .
qed

lemma agree_at_max_pool2d:
  assumes a: "agree_at i n n' x y" and d: "length (shape x) = 4"
    and x: "max_pool2d x k s p = Inr x'" and y: "max_pool2d y k s p = Inr y'"
  shows "agree_at i n n' x' y'"
proof -
  from d obtain n0 c h w where sx0: "shape x = [n0, c, h, w]"
    by (auto simp: length_4_shape)
  with a have sx: "shape x = [n, c, h, w]" and sy: "shape y = [n', c, h, w]"
    by (auto simp: agree_at_def)
  from x sx have x': "x' = Tensor [n, c, conv_out_size h k s p, conv_out_size w k s p]
                 (per_sample n (c * h * w) (max_pool2d_sample c h w k s p) (data x))"
    by (auto simp: max_pool2d_def split: if_splits)
  from y sy have y': "y' = Tensor [n', c, conv_out_size h k s p, conv_out_size w k s p]
                 (per_sample n' (c * h * w) (max_pool2d_sample c h w k s p) (data y))"
    by (auto simp: max_pool2d_def split: if_splits)
  have p: "c * h * w = prod_list [c, h, w]"
    by (simp add: mult.assoc)
  from sx have sx': "shape x = n # [c, h, w]" by simp
  have "agree_at i n n'
           (Tensor (n # [c, conv_out_size h k s p, conv_out_size w k s p])
              (per_sample n (prod_list [c, h, w]) (max_pool2d_sample c h w k s p) (data x)))
           (Tensor (n' # [c, conv_out_size h k s p, conv_out_size w k s p])
              (per_sample n' (prod_list [c, h, w]) (max_pool2d_sample c h w k s p) (data y)))"
    by (rule agree_at_per_sample [OF a sx']) (simp add: length_max_pool2d_sample)
  then show ?thesis
    unfolding x' y' p .
qed

lemma agree_at_Linear:
  assumes a: "agree_at i n n' x y" and d: "length (shape x) = 2"
    and x: "Linear_forward m x = Inr x'" and y: "Linear_forward m y = Inr y'"
  shows "agree_at i n n' x' y'"
proof -
  from d a obtain f where sx: "shape x = [n, f]" and sy: "shape y = [n', f]"
    by (auto simp: agree_at_def length_Suc_conv numeral_2_eq_2)
  from x sx have f: "f = in_features m"
    and x': "x' = Tensor [n, out_features m] (per_sample n (in_features m) (linear_row m) (data x))"
    by (auto simp: Linear_forward_2d split: if_splits)
  from y sy have y': "y' = Tensor [n', out_features m] (per_sample n' (in_features m) (linear_row m) (data y))"
    by (auto simp: Linear_forward_2d split: if_splits)
  from sx f have sx': "shape x = n # [in_features m]" by simp
  have "agree_at i n n'
           (Tensor (n # [out_features m]) (per_sample n (prod_list [in_features m]) (linear_row m) (data x)))
           (Tensor (n' # [out_features m]) (per_sample n' (prod_list [in_features m]) (linear_row m) (data y)))"
    by (rule agree_at_per_sample [OF a sx']) (simp add: length_linear_row)
  then show ?thesis
    unfolding x' y' by simp
qed

lemma agree_at_view_flatten:
  assumes a: "agree_at i n n' x y"
    and x: "view x [int n, - 1] = Inr x'" and y: "view y [int n', - 1] = Inr y'"
  shows "agree_at i n n' x' y' \<and> length (shape x') = 2"
proof -
  from a obtain rest where sx: "shape x = n # rest" and sy: "shape y = n' # rest"
    and i: "i < n" "i < n'"
    and s: "sample (prod_list rest) (data x) i = sample (prod_list rest) (data y) i"
    by (auto simp: agree_at_def)
  from x i have x': "x' = Tensor [n, prod_list rest] (data x)"
    by (simp add: view_flatten [OF sx])
  from y i have y': "y' = Tensor [n', prod_list rest] (data y)"
    by (simp add: view_flatten [OF sy])
  from i s show ?thesis
    unfolding x' y' by (simp add: agree_at_def)
qed


lemma batch_norm_eval_apply:
  assumes "\<not> training m" "batch_norm dims m x = (Inr x', m')"
  shows "m' = m"
    and "\<exists>n c rest. shape x = n # c # rest
           \<and> x' = Tensor (shape x)
                  (if numel x = 0 then []
                   else per_sample n (c * prod_list rest)
                          (normalise_sample m (data (running_mean m)) (data (running_var m)) c (prod_list rest))
                          (data x))"
proof -
  from assms(2) have len: "2 \<le> length (shape x)"
    by (auto simp: batch_norm_def split: if_splits)
  then obtain n c rest where s: "shape x = n # c # rest"
    by (cases "shape x"; simp) (metis Suc_le_length_iff numeral_2_eq_2 list.sel(3) length_Cons Suc_le_mono
        neq_Nil_conv list.size(3) not_less_eq_eq le0)
  from assms s show "m' = m"
    by (auto simp: batch_norm_def Let_def split: if_splits)
  from assms s have "x' = Tensor (shape x)
                  (if numel x = 0 then []
                   else per_sample n (c * prod_list rest)
                          (normalise_sample m (data (running_mean m)) (data (running_var m)) c (prod_list rest))
                          (data x))"
    by (auto simp: batch_norm_def Let_def split: if_splits)
  with s show "\<exists>n c rest. shape x = n # c # rest
           \<and> x' = Tensor (shape x)
                  (if numel x = 0 then []
                   else per_sample n (c * prod_list rest)
                          (normalise_sample m (data (running_mean m)) (data (running_var m)) c (prod_list rest))
                          (data x))"
    by blast
qed


lemma agree_at_batch_norm_eval:
  assumes a: "agree_at i n n' x y" and ev: "\<not> training m"
    and x: "batch_norm dims m x = (Inr x', m1)" and y: "batch_norm dims m y = (Inr y', m2)"
  shows "agree_at i n n' x' y'"
proof -
  define f where "f c inner = normalise_sample m (data (running_mean m)) (data (running_var m)) c inner"
    for c inner
  from batch_norm_eval_apply(2) [OF ev x] obtain n0 c rest where sx0: "shape x = n0 # c # rest"
    and x': "x' = Tensor (shape x)
                  (if numel x = 0 then [] else per_sample n0 (c * prod_list rest) (f c (prod_list rest)) (data x))"
    unfolding f_def by blast
  from batch_norm_eval_apply(2) [OF ev y] obtain n1 c1 rest1 where sy0: "shape y = n1 # c1 # rest1"
    and y': "y' = Tensor (shape y)
                  (if numel y = 0 then [] else per_sample n1 (c1 * prod_list rest1) (f c1 (prod_list rest1)) (data y))"
    unfolding f_def by blast
  from a sx0 sy0 have e: "n0 = n" "n1 = n'" "c1 = c" "rest1 = rest" and i: "i < n" "i < n'"
    by (auto simp: agree_at_def)
  from sx0 e have sx: "shape x = n # (c # rest)" by simp
  from sy0 e have sy: "shape y = n' # (c # rest)" by simp
  show ?thesis
  proof (cases "c * prod_list rest = 0")
    case True
    with sx sy have "numel x = 0" "numel y = 0" by (auto simp: numel_def)
    with x' y' sx sy i True show ?thesis
      by (auto simp: agree_at_def sample_def)
  next
    case False
    with sx sy i have nz: "numel x \<noteq> 0" "numel y \<noteq> 0" by (auto simp: numel_def)
    have "agree_at i n n'
           (Tensor (n # (c # rest)) (per_sample n (prod_list (c # rest)) (f c (prod_list rest)) (data x)))
           (Tensor (n' # (c # rest)) (per_sample n' (prod_list (c # rest)) (f c (prod_list rest)) (data y)))"
      by (rule agree_at_per_sample [OF a sx]) (simp add: f_def length_normalise_sample)
    with nz show ?thesis
      unfolding x' y' e sx sy by simp
  qed
qed

lemma batch_norm_shape_fst: "fst (batch_norm dims m x) = Inr y \<Longrightarrow> shape y = shape x"
  by (cases "batch_norm dims m x") (auto dest: batch_norm_shape)

text \<open>The two halves of the interleaved output, sample by sample.\<close>

lemma sample_stride2:
  assumes i: "i < n" and len: "length d = n * (l * 2)" and k: "k < 2"
  shows "sample l (map (\<lambda>j. d ! (j * 2 + k)) [0..<n * l]) i
           = map (\<lambda>j. sample (l * 2) d i ! (j * 2 + k)) [0..<l]"
proof (rule nth_equalityI)
  from i have le: "i * l + l \<le> n * l"
    by (metis Suc_leI mult_Suc mult_le_mono1 add.commute)
  then show L: "length (sample l (map (\<lambda>j. d ! (j * 2 + k)) [0..<n * l]) i)
          = length (map (\<lambda>j. sample (l * 2) d i ! (j * 2 + k)) [0..<l])"
    by (simp add: sample_def)
  fix j assume "j < length (sample l (map (\<lambda>j. d ! (j * 2 + k)) [0..<n * l]) i)"
  with L have j: "j < l" by simp
  from le j have 1: "i * l + j < n * l" by simp
  from j k have 2: "j * 2 + k < l * 2" by simp
  from i have "i * (l * 2) \<le> n * (l * 2)"
    by (intro mult_le_mono1) simp
  with len have 3: "i * (l * 2) \<le> length d" by (simp only:)
  from i have 0: "i * l \<le> n * l" by (intro mult_le_mono1) simp
  have "sample l (map (\<lambda>j. d ! (j * 2 + k)) [0..<n * l]) i ! j
          = map (\<lambda>j. d ! (j * 2 + k)) [0..<n * l] ! (i * l + j)"
    using j 0 by (simp add: sample_def)
  also have "\<dots> = d ! ((i * l + j) * 2 + k)"
    using 1 by (simp del: distrib_right_numeral)
  also have "(i * l + j) * 2 + k = i * (l * 2) + (j * 2 + k)"
    by (simp add: algebra_simps)
  also have "d ! (i * (l * 2) + (j * 2 + k)) = sample (l * 2) d i ! (j * 2 + k)"
    using 2 3 by (simp add: sample_def)
  finally show "sample l (map (\<lambda>j. d ! (j * 2 + k)) [0..<n * l]) i ! j
          = map (\<lambda>j. sample (l * 2) d i ! (j * 2 + k)) [0..<l] ! j"
    using j by simp
qed


lemma Linear_forward_2d_length:
  assumes "shape x = [n, f]" "Linear_forward m x = Inr y"
  shows "length (data y) = n * out_features m"
  using assms
  by (auto simp: Linear_forward_2d length_per_sample length_linear_row split: if_splits)

lemma agree_at_split:
  assumes a: "agree_at i n n' x y" and sx: "shape x = [n, l * 2]"
    and lx: "length (data x) = n * (l * 2)" and ly: "length (data y) = n' * (l * 2)"
  shows "agree_at i n n' (Tensor [n, l] (map (\<lambda>j. data x ! (j * 2)) [0..<n * l]))
                        (Tensor [n', l] (map (\<lambda>j. data y ! (j * 2)) [0..<n' * l]))"
    and "agree_at i n n' (Tensor [n, l] (map (\<lambda>j. data x ! (j * 2 + 1)) [0..<n * l]))
                        (Tensor [n', l] (map (\<lambda>j. data y ! (j * 2 + 1)) [0..<n' * l]))"
proof -
  from a sx have i: "i < n" "i < n'"
    and s: "sample (l * 2) (data x) i = sample (l * 2) (data y) i"
    by (auto simp: agree_at_def)
  have 0: "sample l (map (\<lambda>j. data x ! (j * 2 + 0)) [0..<n * l]) i
             = sample l (map (\<lambda>j. data y ! (j * 2 + 0)) [0..<n' * l]) i"
    by (simp only: sample_stride2 [OF i(1) lx] sample_stride2 [OF i(2) ly] s zero_less_numeral)
  have 1: "sample l (map (\<lambda>j. data x ! (j * 2 + 1)) [0..<n * l]) i
             = sample l (map (\<lambda>j. data y ! (j * 2 + 1)) [0..<n' * l]) i"
    by (simp only: sample_stride2 [OF i(1) lx] sample_stride2 [OF i(2) ly] s one_less_numeral_iff
        semiring_norm)
  from 0 i show "agree_at i n n' (Tensor [n, l] (map (\<lambda>j. data x ! (j * 2)) [0..<n * l]))
                        (Tensor [n', l] (map (\<lambda>j. data y ! (j * 2)) [0..<n' * l]))"
    by (simp add: agree_at_def)
  from 1 i show "agree_at i n n' (Tensor [n, l] (map (\<lambda>j. data x ! (j * 2 + 1)) [0..<n * l]))
                        (Tensor [n', l] (map (\<lambda>j. data y ! (j * 2 + 1)) [0..<n' * l]))"
    by (simp add: agree_at_def)
qed

text \<open>The rows that an embedding looks up, index by index.\<close>

lemma sample_concat_rows:
  assumes "\<And>v. length (row v) = k"
  shows "sample k (concat (map row xs)) i = concat (map row (sample 1 xs i))"
proof (induction xs arbitrary: i)
  case Nil
  then show ?case by (simp add: sample_def)
next
  case (Cons x xs)
  show ?case
  proof (cases i)
    case 0
    then show ?thesis by (simp add: sample_def assms)
  next
    case (Suc j)
    with Cons.IH [of j] show ?thesis by (simp add: sample_def assms)
  qed
qed

lemma agree_at_Embedding:
  assumes a: "agree_at i n n' x y" and d: "shape x = [n]"
    and x: "Embedding_forward m x = Inr x'" and y: "Embedding_forward m y = Inr y'"
  shows "agree_at i n n' x' y'"
proof -
  define row where "row = (\<lambda>v::int. map (\<lambda>k. data (Embedding.weight m) ! (nat v * embedding_dim m + k))
                                     [0..<embedding_dim m])"
  from a d have sy: "shape y = [n']" and i: "i < n" "i < n'"
    and s: "sample 1 (data x) i = sample 1 (data y) i"
    by (auto simp: agree_at_def)
  from x d have x': "x' = Tensor [n, embedding_dim m] (concat (map row (data x)))"
    by (simp add: Embedding_forward_eq_Inr_iff row_def)
  from y sy have y': "y' = Tensor [n', embedding_dim m] (concat (map row (data y)))"
    by (simp add: Embedding_forward_eq_Inr_iff row_def)
  have "sample (embedding_dim m) (concat (map row (data x))) i
          = sample (embedding_dim m) (concat (map row (data y))) i"
  proof -
    have len: "length (row v) = embedding_dim m" for v
      by (simp add: row_def)
    show ?thesis
      by (simp only: sample_concat_rows [of row, OF len] s)
  qed
  with i show ?thesis
    unfolding x' y' by (simp add: agree_at_def)
qed

end
